theory Spec2Isabelle
  imports Main "HOL-Library.Word"
begin

section \<open>The test environment of the engine simulator (testenv.go)\<close>

text \<open>
  A shallow embedding of \<^verbatim>\<open>simulators/ethereum/engine/testenv.go\<close>.
  Go's \<^verbatim>\<open>uint64\<close> is a 64-bit word (arithmetic wraps), \<^verbatim>\<open>*big.Int\<close> values are
  unbounded integers (the pointers are taken to be non-nil), \<^verbatim>\<open>*common.Address\<close> is an
  optional 160-bit word (\<open>None\<close> is the nil pointer) and \<^verbatim>\<open>[]byte\<close> is a list of
  8-bit words.
\<close>

type_synonym uint64 = "64 word"
type_synonym byte = "8 word"
type_synonym Address = "160 word"

subsection \<open>Package-level values\<close>

text \<open>
  \<^verbatim>\<open>vaultKey\<close> is declared in the file itself. \<^verbatim>\<open>gasPrice\<close>, \<^verbatim>\<open>gasTipPrice\<close>,
  \<^verbatim>\<open>chainID\<close>, \<^verbatim>\<open>big0\<close>, \<^verbatim>\<open>rpcTimeout\<close>, \<^verbatim>\<open>EthPortHTTP\<close> and \<^verbatim>\<open>EnginePortHTTP\<close>
  are package variables and constants declared in other files of the package; they are
  parameters of the model. A \<^verbatim>\<open>time.Duration\<close> is a number of nanoseconds.
\<close>

definition vaultKey :: string where
  "vaultKey = ''63b508a03c3b5937ceb903af8b1b0c191012ef6eb7e9c3fb7afa94e5d214d376''"

record Globals =
  gasPrice :: int
  gasTipPrice :: int
  chainID :: int
  big0 :: int
  rpcTimeout :: int
  EthPortHTTP :: int
  EnginePortHTTP :: int

definition Millisecond :: int where
  "Millisecond = 1000000"

definition Second :: int where
  "Second = 1000 * Millisecond"

text \<open>The \<^verbatim>\<open>TestTransactionType\<close> constants: an \<^verbatim>\<open>int\<close> type with \<^verbatim>\<open>iota\<close> values.\<close>

type_synonym TestTransactionType = int

definition UnspecifiedTransactionType :: TestTransactionType where
  "UnspecifiedTransactionType = 0"

definition LegacyTxOnly :: TestTransactionType where
  "LegacyTxOnly = 1"

definition DynamicFeeTxOnly :: TestTransactionType where
  "DynamicFeeTxOnly = 2"

text \<open>The transaction type numbers of go-ethereum's \<^verbatim>\<open>core/types\<close>.\<close>

definition LegacyTxType :: int where
  "LegacyTxType = 0"

definition DynamicFeeTxType :: int where
  "DynamicFeeTxType = 2"

subsection \<open>Transactions\<close>

text \<open>
  The two \<^verbatim>\<open>types.TxData\<close> literals the builder writes, with the fields in the order
  the source gives them.
\<close>

datatype TxData =
  LegacyTx (lNonce: uint64) (lTo: "Address option") (lValue: int) (lGas: uint64)
    (lGasPrice: int) (lData: "byte list")
| DynamicFeeTx (dNonce: uint64) (dGas: uint64) (dGasTipCap: int) (dGasFeeCap: int)
    (dTo: "Address option") (dValue: int) (dData: "byte list")

text \<open>\<^verbatim>\<open>types.NewLondonSigner(chainID)\<close>: a signer is identified by its chain id.\<close>

datatype Signer = LondonSigner int

definition NewLondonSigner :: "int \<Rightarrow> Signer" where
  "NewLondonSigner c = LondonSigner c"

text \<open>
  A transaction is its data and, once signed, the signer, the key and the signature
  bytes it was signed with.
\<close>

record Transaction =
  inner :: TxData
  signedBy :: "(Signer \<times> string \<times> byte list) option"

definition NewTx :: "TxData \<Rightarrow> Transaction" where
  "NewTx d = \<lparr>inner = d, signedBy = None\<rparr>"

text \<open>The accessors of \<^verbatim>\<open>types.Transaction\<close> that the properties read.\<close>

fun txType :: "TxData \<Rightarrow> int" where
  "txType (LegacyTx n to v g gp d) = LegacyTxType"
| "txType (DynamicFeeTx n g tip cap to v d) = DynamicFeeTxType"

fun txNonce :: "TxData \<Rightarrow> uint64" where
  "txNonce (LegacyTx n to v g gp d) = n"
| "txNonce (DynamicFeeTx n g tip cap to v d) = n"

fun txGas :: "TxData \<Rightarrow> uint64" where
  "txGas (LegacyTx n to v g gp d) = g"
| "txGas (DynamicFeeTx n g tip cap to v d) = g"

fun txTo :: "TxData \<Rightarrow> Address option" where
  "txTo (LegacyTx n to v g gp d) = to"
| "txTo (DynamicFeeTx n g tip cap to v d) = to"

fun txValue :: "TxData \<Rightarrow> int" where
  "txValue (LegacyTx n to v g gp d) = v"
| "txValue (DynamicFeeTx n g tip cap to v d) = v"

fun txData :: "TxData \<Rightarrow> byte list" where
  "txData (LegacyTx n to v g gp d) = d"
| "txData (DynamicFeeTx n g tip cap to v d) = d"

text \<open>
  Signing is go-ethereum's and the elliptic-curve library's. The signature primitive is
  a parameter of the model: given the signer, the transaction data and the key it
  yields an error text or the signature bytes. \<^verbatim>\<open>types.SignTx\<close> returns the error, or
  a copy of the transaction that carries the signature.
\<close>

type_synonym SignFn = "Signer \<Rightarrow> TxData \<Rightarrow> string \<Rightarrow> string + byte list"

definition SignTx :: "SignFn \<Rightarrow> Transaction \<Rightarrow> Signer \<Rightarrow> string \<Rightarrow> string + Transaction" where
  "SignTx sg tx s prv =
     (case sg s (inner tx) prv of
        Inl err \<Rightarrow> Inl err
      | Inr sigbytes \<Rightarrow> Inr (tx\<lparr>signedBy := Some (s, prv, sigbytes)\<rparr>))"

subsection \<open>The environment and the test handle\<close>

text \<open>
  What the environment prints through the embedded \<^verbatim>\<open>hivesim.T\<close>: each message keeps
  the arguments of its format string. \<^verbatim>\<open>ctx.Err()\<close> of a context that nobody cancelled
  is \<^verbatim>\<open>context.DeadlineExceeded\<close>.
\<close>

datatype CtxError = DeadlineExceeded

datatype LogMsg =
  CouldNotSign string string
| BuiltNextTransaction string Transaction uint64 "Address option" string
| SendTimeout string string
| PortsNeverOpen string CtxError

text \<open>
  The fields of \<^verbatim>\<open>TestEnv\<close> that the modelled methods read or write. \<open>failed\<close> and
  \<open>logs\<close> stand for the embedded \<^verbatim>\<open>*hivesim.T\<close>; \<open>lastCtx\<close> and \<open>lastCancel\<close> name
  a context of the context store by its index, as does \<open>syncCancel\<close>. \<open>Timeout\<close> is
  \<open>None\<close> for the nil channel and \<open>Some d\<close> for the channel of \<^verbatim>\<open>time.After(d)\<close>.
\<close>

record TestEnv =
  TestName :: string
  nonce :: uint64
  TestTransactionType :: TestTransactionType
  Timeout :: "int option"
  lastCtx :: "nat option"
  lastCancel :: "nat option"
  syncCancel :: "nat option"
  failed :: bool
  logs :: "LogMsg list"

text \<open>
  How a call ends: it returns a value, or \<^verbatim>\<open>Fatalf\<close> ended the test (\<open>FailNow\<close>:
  the test is marked failed and the calling goroutine stops, so no statement after the
  call runs), or the Go runtime panics.
\<close>

datatype 'a outcome = Return 'a | FailNow | Panic

text \<open>
  Modelled from the spec: \<^verbatim>\<open>Logf\<close>, \<^verbatim>\<open>Fatalf\<close> and \<^verbatim>\<open>Failed\<close> belong to
  \<^verbatim>\<open>hivesim.T\<close>, which is not in the file. A fatal failure is surfaced to the test
  framework as a test-failing condition with a message and ends the test (sections 4.3
  and 7 of the spec): \<open>Fatalf\<close> records the message and marks the test failed, and the
  caller's outcome is \<open>FailNow\<close>.
\<close>

definition Logf :: "TestEnv \<Rightarrow> LogMsg \<Rightarrow> TestEnv" where
  "Logf t m = t\<lparr>logs := logs t @ [m]\<rparr>"

definition Fatalf :: "TestEnv \<Rightarrow> LogMsg \<Rightarrow> TestEnv" where
  "Fatalf t m = t\<lparr>logs := logs t @ [m], failed := True\<rparr>"

subsection \<open>makeNextTransaction\<close>

text \<open>
  The first \<^verbatim>\<open>switch\<close>: \<^verbatim>\<open>txTypeToUse\<close> starts as 0 and a case that is not listed
  leaves it unchanged.
\<close>

definition txTypeToUse :: "TestEnv \<Rightarrow> int" where
  "txTypeToUse t =
     (if TestTransactionType t = UnspecifiedTransactionType then
        (if nonce t mod 2 = 0 then LegacyTxType
         else if nonce t mod 2 = 1 then DynamicFeeTxType
         else 0)
      else if TestTransactionType t = LegacyTxOnly then LegacyTxType
      else if TestTransactionType t = DynamicFeeTxOnly then DynamicFeeTxType
      else 0)"

text \<open>
  The second \<^verbatim>\<open>switch\<close>: the transaction data and the type's name for the log; with
  no matching case \<^verbatim>\<open>newTxData\<close> stays nil.
\<close>

definition newTxData ::
  "Globals \<Rightarrow> TestEnv \<Rightarrow> Address option \<Rightarrow> uint64 \<Rightarrow> int \<Rightarrow> byte list \<Rightarrow> (TxData \<times> string) option" where
  "newTxData G t recipient gasLimit amount payload =
     (if txTypeToUse t = LegacyTxType then
        Some (LegacyTx (nonce t) recipient amount gasLimit (gasPrice G) payload, ''Legacy'')
      else if txTypeToUse t = DynamicFeeTxType then
        (let gasFeeCap = gasPrice G;
             gasTipCap = gasTipPrice G
         in Some (DynamicFeeTx (nonce t) gasLimit gasTipCap gasFeeCap recipient amount payload,
                  ''DynamicFeeTx''))
      else None)"

text \<open>
  The builder. \<^verbatim>\<open>types.NewTx(nil)\<close> panics; a signing error calls \<^verbatim>\<open>Fatalf\<close>, which
  does not return; otherwise the transaction is logged, the nonce is incremented and
  the signed transaction is returned.
\<close>

definition makeNextTransaction ::
  "Globals \<Rightarrow> SignFn \<Rightarrow> TestEnv \<Rightarrow> Address option \<Rightarrow> uint64 \<Rightarrow> int \<Rightarrow> byte list
     \<Rightarrow> Transaction outcome \<times> TestEnv" where
  "makeNextTransaction G sg t recipient gasLimit amount payload =
     (case newTxData G t recipient gasLimit amount payload of
        None \<Rightarrow> (Panic, t)
      | Some (d, txTypeName) \<Rightarrow>
          (case SignTx sg (NewTx d) (NewLondonSigner (chainID G)) vaultKey of
             Inl err \<Rightarrow> (FailNow, Fatalf t (CouldNotSign (TestName t) err))
           | Inr signedTx \<Rightarrow>
               (Return signedTx,
                (Logf t (BuiltNextTransaction (TestName t) signedTx (nonce t) recipient txTypeName))
                  \<lparr>nonce := nonce t + 1\<rparr>)))"

subsection \<open>makeNextBigContractTransaction\<close>

text \<open>
  The local variable \<^verbatim>\<open>contractLength\<close> as a function of \<^verbatim>\<open>gasLimit\<close>. All the
  arithmetic is \<^verbatim>\<open>uint64\<close> arithmetic.
\<close>

definition contractLength :: "uint64 \<Rightarrow> uint64" where
  "contractLength gasLimit =
     (if gasLimit > 21000 + 32000 then
        (let cl = (gasLimit - 21000 - 32000) div 200
         in if cl \<ge> 1 then cl - 1 else cl)
      else 0)"

text \<open>\<^verbatim>\<open>binary.BigEndian.PutUint64\<close> on a buffer of 8 bytes: the most significant byte first.\<close>

definition PutUint64 :: "uint64 \<Rightarrow> byte list" where
  "PutUint64 v = map (\<lambda>i. ucast (drop_bit (8 * (7 - i)) v)) [0..<8]"

definition initCode :: "uint64 \<Rightarrow> byte list" where
  "initCode gasLimit = ([0x67] @ PutUint64 (contractLength gasLimit)) @ [0x38] @ [0xF3]"

definition makeNextBigContractTransaction ::
  "Globals \<Rightarrow> SignFn \<Rightarrow> TestEnv \<Rightarrow> uint64 \<Rightarrow> Transaction outcome \<times> TestEnv" where
  "makeNextBigContractTransaction G sg t gasLimit =
     makeNextTransaction G sg t None gasLimit (big0 G) (initCode gasLimit)"

subsection \<open>A run of builder calls\<close>

text \<open>
  A test body calls the builder again and again on the same environment. The calls are
  given by their arguments; the run stops at the first call that does not return.
\<close>

fun makeTransactions ::
  "Globals \<Rightarrow> SignFn \<Rightarrow> TestEnv \<Rightarrow> (Address option \<times> uint64 \<times> int \<times> byte list) list
     \<Rightarrow> Transaction list \<times> TestEnv" where
  "makeTransactions G sg t [] = ([], t)"
| "makeTransactions G sg t ((recipient, gasLimit, amount, payload) # rest) =
     (case makeNextTransaction G sg t recipient gasLimit amount payload of
        (Return tx, t') \<Rightarrow>
          (case makeTransactions G sg t' rest of (txs, t'') \<Rightarrow> (tx # txs, t''))
      | (FailNow, t') \<Rightarrow> ([], t')
      | (Panic, t') \<Rightarrow> ([], t'))"

subsection \<open>sendNextTransaction\<close>

text \<open>
  Modelled from the spec: the node handle (\<^verbatim>\<open>EngineClient\<close>, with its own \<^verbatim>\<open>Ctx\<close>
  and \<^verbatim>\<open>Eth.SendTransaction\<close>) is declared in another file, and the spec gives its
  interface as \<^verbatim>\<open>sendTransaction(ctx, tx) -> error\<close> (section 6). What the node and
  the clock do is a parameter of the model:
  \<^item> \<open>sendErr w i tx\<close> is the error of the \<open>i\<close>-th call of \<^verbatim>\<open>SendTransaction\<close>
    (\<open>None\<close> is nil);
  \<^item> \<open>timeoutWithin w i d\<close> says whether the channel \<^verbatim>\<open>t.Timeout\<close> delivers before a
    timer of duration \<open>d\<close> that is started when the \<open>i\<close>-th call has returned; with
    \<open>d = 0\<close>, whether the deadline has already fired when that call returns.
\<close>

record SendWorld =
  sendErr :: "nat \<Rightarrow> Transaction \<Rightarrow> string option"
  timeoutWithin :: "nat \<Rightarrow> int \<Rightarrow> bool"

text \<open>
  The \<^verbatim>\<open>for\<close> loop, from its \<open>i\<close>-th iteration on. The \<^verbatim>\<open>select\<close> takes the case of
  \<^verbatim>\<open>t.Timeout\<close> when that channel delivers before the timer of
  \<^verbatim>\<open>time.After(time.Second)\<close> does. The result carries the number of calls of
  \<^verbatim>\<open>SendTransaction\<close> that were made; a loop that never ends is \<open>None\<close>.
\<close>

partial_function (option) sendLoop ::
  "SendWorld \<Rightarrow> TestEnv \<Rightarrow> Transaction \<Rightarrow> nat \<Rightarrow> (Transaction outcome \<times> nat \<times> TestEnv) option" where
  "sendLoop w t tx i =
     (case sendErr w i tx of
        None \<Rightarrow> Some (Return tx, Suc i, t)
      | Some err \<Rightarrow>
          (if timeoutWithin w i Second
           then Some (FailNow, Suc i, Fatalf t (SendTimeout (TestName t) err))
           else sendLoop w t tx (Suc i)))"

definition sendNextTransaction ::
  "Globals \<Rightarrow> SignFn \<Rightarrow> SendWorld \<Rightarrow> TestEnv \<Rightarrow> Address \<Rightarrow> int \<Rightarrow> byte list
     \<Rightarrow> (Transaction outcome \<times> nat \<times> TestEnv) option" where
  "sendNextTransaction G sg w t recipient amount payload =
     (case makeNextTransaction G sg t (Some recipient) 75000 amount payload of
        (Return tx, t') \<Rightarrow> sendLoop w t' tx 0
      | (FailNow, t') \<Rightarrow> Some (FailNow, 0, t')
      | (Panic, t') \<Rightarrow> Some (Panic, 0, t'))"

text \<open>The transactions that the log reports as built, oldest first.\<close>

fun builtTxs :: "LogMsg list \<Rightarrow> Transaction list" where
  "builtTxs [] = []"
| "builtTxs (BuiltNextTransaction name tx n r ty # ms) = tx # builtTxs ms"
| "builtTxs (m # ms) = builtTxs ms"

subsection \<open>CheckEthEngineLive\<close>

text \<open>
  What the function does to the outside, in order: it creates a context with a timeout
  and a ticker, dials addresses, closes connections, and on return runs its deferred
  calls.
\<close>

datatype LiveEvent =
  WithTimeout int
| NewTicker int
| Dial string int bool
| ConnClose string int
| TickerStop
| CtxCancel

datatype SelectCase = CtxDone | Tick

text \<open>
  The runtime and the network are a parameter: \<open>selected w n\<close> is the case that the
  \<open>n\<close>-th execution of the \<^verbatim>\<open>select\<close> statement takes (the context created at the top
  is done, or the ticker delivers), and \<open>dialOk w n ip port\<close> says whether the dial
  made in that execution succeeds.
\<close>

record LiveWorld =
  selected :: "nat \<Rightarrow> SelectCase"
  dialOk :: "nat \<Rightarrow> string \<Rightarrow> int \<Rightarrow> bool"

text \<open>
  The loop labelled \<^verbatim>\<open>portcheckloop\<close> for one port, from the \<open>n\<close>-th \<^verbatim>\<open>select\<close> on,
  with the events so far. It yields \<^verbatim>\<open>ctx.Err()\<close> or nil, the number of the next
  \<^verbatim>\<open>select\<close> and the events.
\<close>

partial_function (option) portcheckloop ::
  "LiveWorld \<Rightarrow> string \<Rightarrow> int \<Rightarrow> nat \<Rightarrow> LiveEvent list
     \<Rightarrow> (CtxError option \<times> nat \<times> LiveEvent list) option" where
  "portcheckloop w ip checkport n evs =
     (case selected w n of
        CtxDone \<Rightarrow> Some (Some DeadlineExceeded, Suc n, evs)
      | Tick \<Rightarrow>
          (if dialOk w n ip checkport
           then Some (None, Suc n, evs @ [Dial ip checkport True, ConnClose ip checkport])
           else portcheckloop w ip checkport (Suc n) (evs @ [Dial ip checkport False])))"

text \<open>The outer \<^verbatim>\<open>for\<close> over the ports; an error returns at once.\<close>

fun checkports ::
  "LiveWorld \<Rightarrow> string \<Rightarrow> int list \<Rightarrow> nat \<Rightarrow> LiveEvent list
     \<Rightarrow> (CtxError option \<times> LiveEvent list) option" where
  "checkports w ip [] n evs = Some (None, evs)"
| "checkports w ip (checkport # rest) n evs =
     (case portcheckloop w ip checkport n evs of
        None \<Rightarrow> None
      | Some (Some err, n', evs') \<Rightarrow> Some (Some err, evs')
      | Some (None, n', evs') \<Rightarrow> checkports w ip rest n' evs')"

text \<open>The deferred calls run last, the ticker's \<^verbatim>\<open>Stop\<close> before the context's \<^verbatim>\<open>cancel\<close>.\<close>

definition CheckEthEngineLive ::
  "Globals \<Rightarrow> LiveWorld \<Rightarrow> string \<Rightarrow> (CtxError option \<times> LiveEvent list) option" where
  "CheckEthEngineLive G w ip =
     (case checkports w ip [EthPortHTTP G, EnginePortHTTP G] 0
             [WithTimeout (Second * 5), NewTicker (100 * Millisecond)] of
        None \<Rightarrow> None
      | Some (err, evs) \<Rightarrow> Some (err, evs @ [TickerStop, CtxCancel]))"

subsection \<open>Ctx\<close>

text \<open>
  Contexts live in a store, and a context is named by its index there. A context keeps
  its parent (\<open>None\<close> is \<^verbatim>\<open>context.Background()\<close>), its timeout and the number of times
  its cancel function has been called. \<^verbatim>\<open>context.WithTimeout\<close> allocates a new context;
  the cancel function of the context \<open>c\<close> is \<open>cancel\<close> at \<open>c\<close>.
\<close>

record Context =
  ctxParent :: "nat option"
  ctxTimeout :: int
  cancelCalls :: nat

definition WithTimeoutCtx :: "Context list \<Rightarrow> nat option \<Rightarrow> int \<Rightarrow> nat \<times> Context list" where
  "WithTimeoutCtx cs p d = (length cs, cs @ [\<lparr>ctxParent = p, ctxTimeout = d, cancelCalls = 0\<rparr>])"

definition cancel :: "Context list \<Rightarrow> nat \<Rightarrow> Context list" where
  "cancel cs c =
     (if c < length cs then cs[c := (cs ! c)\<lparr>cancelCalls := Suc (cancelCalls (cs ! c))\<rparr>] else cs)"

text \<open>A context is live while it is in the store and nobody has cancelled it.\<close>

definition live :: "Context list \<Rightarrow> nat \<Rightarrow> bool" where
  "live cs c = (c < length cs \<and> cancelCalls (cs ! c) = 0)"

text \<open>What a call of \<^verbatim>\<open>Ctx\<close> does to the store, in the order in which it does it.\<close>

datatype CtxEvent = CancelCalled nat | ContextCreated nat

text \<open>
  The method \<^verbatim>\<open>Ctx\<close>: the context returned, the events, the store and the environment.
  Calling \<^verbatim>\<open>t.lastCancel\<close> while it is nil panics.
\<close>

definition Ctx ::
  "Globals \<Rightarrow> Context list \<times> TestEnv \<Rightarrow> nat outcome \<times> CtxEvent list \<times> Context list \<times> TestEnv" where
  "Ctx G st =
     (case st of (cs, t) \<Rightarrow>
        (case (if lastCtx t \<noteq> None
               then (case lastCancel t of
                       None \<Rightarrow> None
                     | Some c \<Rightarrow> Some (cancel cs c, [CancelCalled c]))
               else Some (cs, [])) of
           None \<Rightarrow> (Panic, [], cs, t)
         | Some (cs1, evs) \<Rightarrow>
             (case WithTimeoutCtx cs1 None (rpcTimeout G) of
                (c, cs2) \<Rightarrow>
                  (Return c, evs @ [ContextCreated c], cs2,
                   t\<lparr>lastCtx := Some c, lastCancel := Some c\<rparr>))))"

text \<open>\<open>n\<close> calls of \<^verbatim>\<open>Ctx\<close> in a row: the contexts they returned, oldest first.\<close>

fun CtxCalls :: "Globals \<Rightarrow> nat \<Rightarrow> Context list \<times> TestEnv \<Rightarrow> nat list \<times> Context list \<times> TestEnv" where
  "CtxCalls G 0 st = ([], st)"
| "CtxCalls G (Suc n) st =
     (case Ctx G st of
        (Return c, evs, st') \<Rightarrow> (case CtxCalls G n st' of (cids, st'') \<Rightarrow> (c # cids, st''))
      | (FailNow, evs, st') \<Rightarrow> ([], st')
      | (Panic, evs, st') \<Rightarrow> ([], st'))"

text \<open>
  The deferred function of \<^verbatim>\<open>RunTest\<close> that closes the last context; here too a nil
  \<^verbatim>\<open>lastCancel\<close> panics.
\<close>

definition cancelLastCtx :: "Context list \<times> TestEnv \<Rightarrow> unit outcome \<times> Context list \<times> TestEnv" where
  "cancelLastCtx st =
     (case st of (cs, t) \<Rightarrow>
        (if lastCtx t \<noteq> None
         then (case lastCancel t of None \<Rightarrow> (Panic, cs, t) | Some c \<Rightarrow> (Return (), cancel cs c, t))
         else (Return (), cs, t)))"

text \<open>
  An environment and its store fit together when \<^verbatim>\<open>lastCtx\<close> and \<^verbatim>\<open>lastCancel\<close> belong
  to the same context of the store. \<^verbatim>\<open>Ctx\<close> is the only writer of the two fields and
  sets them together.
\<close>

definition paired :: "Context list \<times> TestEnv \<Rightarrow> bool" where
  "paired st = (case st of (cs, t) \<Rightarrow>
     lastCancel t = lastCtx t \<and> (case lastCtx t of None \<Rightarrow> True | Some c \<Rightarrow> c < length cs))"

subsection \<open>RunTest\<close>

text \<open>
  The state a test works on: the environment, the store of its contexts and the flag
  \<^verbatim>\<open>TTDReached\<close> of the consensus-layer mocker.
\<close>

record TestState =
  tsEnv :: TestEnv
  tsCtxs :: "Context list"
  TTDReached :: bool

text \<open>What \<^verbatim>\<open>RunTest\<close> does to its collaborators, in order.\<close>

datatype RunEvent =
  NewCLMocker
| AddEngineClient
| NewEngineClient
| DialHTTPWithClient
| CheckLive "LiveEvent list"
| ArmTimeouts int
| TestBody
| ProduceSingleBlock
| SyncCancel
| CloseTestend
| CancelLastCtx
| RpcClientClose
| EngineClientClose
| CloseClients
| RuntimePanic

text \<open>The \<^verbatim>\<open>TestEnv\<close> literal; the test handle has not failed and has logged nothing.\<close>

definition newTestEnv :: "string \<Rightarrow> TestTransactionType \<Rightarrow> TestEnv" where
  "newTestEnv testName testTransactionType =
     \<lparr>TestName = testName, nonce = 0, TestTransactionType = testTransactionType,
      Timeout = None, lastCtx = None, lastCancel = None, syncCancel = None,
      failed = False, logs = []\<rparr>"

text \<open>
  The deferred functions of \<^verbatim>\<open>RunTest\<close>. Go runs them when the function returns and
  also when \<^verbatim>\<open>Fatalf\<close> stops the goroutine, the one deferred last first; when one of
  them panics, the others still run.
\<close>

datatype Deferred =
  DCloseClients
| DEngineClientClose
| DRpcClientClose
| DCancelLastCtx
| DCloseTestend
| DSyncCancel
| DProduceLastBlock

text \<open>
  Modelled from the spec: the consensus mock (\<^verbatim>\<open>CLMocker\<close>) is declared in another
  file; it offers \<^verbatim>\<open>produceOneBlock(callbacks)\<close> and exposes whether the threshold has
  been reached (section 6). What producing a block does to the state is the parameter
  \<open>produce\<close>; the clients' \<^verbatim>\<open>Close\<close> calls are events only.
\<close>

fun runDeferred ::
  "(TestState \<Rightarrow> TestState) \<Rightarrow> Deferred \<Rightarrow> TestState \<times> RunEvent list \<Rightarrow> TestState \<times> RunEvent list" where
  "runDeferred produce DCloseClients (s, evs) = (s, evs @ [CloseClients])"
| "runDeferred produce DEngineClientClose (s, evs) = (s, evs @ [EngineClientClose])"
| "runDeferred produce DRpcClientClose (s, evs) = (s, evs @ [RpcClientClose])"
| "runDeferred produce DCancelLastCtx (s, evs) =
     (if lastCtx (tsEnv s) \<noteq> None
      then (case cancelLastCtx (tsCtxs s, tsEnv s) of
              (Return u, cs, t) \<Rightarrow> (s\<lparr>tsCtxs := cs, tsEnv := t\<rparr>, evs @ [CancelLastCtx])
            | (FailNow, cs, t) \<Rightarrow> (s, evs)
            | (Panic, cs, t) \<Rightarrow> (s, evs @ [RuntimePanic]))
      else (s, evs))"
| "runDeferred produce DCloseTestend (s, evs) = (s, evs @ [CloseTestend])"
| "runDeferred produce DSyncCancel (s, evs) =
     (case syncCancel (tsEnv s) of
        None \<Rightarrow> (s, evs)
      | Some c \<Rightarrow> (s\<lparr>tsCtxs := cancel (tsCtxs s) c\<rparr>, evs @ [SyncCancel]))"
| "runDeferred produce DProduceLastBlock (s, evs) =
     (if TTDReached s \<and> \<not> failed (tsEnv s)
      then (produce s, evs @ [ProduceSingleBlock])
      else (s, evs))"

definition runAllDeferred ::
  "(TestState \<Rightarrow> TestState) \<Rightarrow> Deferred list \<Rightarrow> TestState \<times> RunEvent list \<Rightarrow> TestState \<times> RunEvent list" where
  "runAllDeferred produce stack st = fold (runDeferred produce) stack st"

text \<open>The state in which the test body starts: the fresh environment with the timeout armed.\<close>

definition armedState :: "string \<Rightarrow> int \<Rightarrow> TestTransactionType \<Rightarrow> TestState" where
  "armedState testName timeout testTransactionType =
     \<lparr>tsEnv = (newTestEnv testName testTransactionType)\<lparr>Timeout := Some timeout\<rparr>,
      tsCtxs = [], TTDReached = False\<rparr>"

text \<open>
  \<^verbatim>\<open>RunTest\<close>. The test body \<open>fn\<close> is a parameter: it ends somehow and leaves a
  state. The stack of deferred functions has the one deferred last at its head. When
  the ports never open, \<^verbatim>\<open>Fatalf\<close> ends the function before the timeouts are armed,
  before the last deferred function is registered and before the body runs.
\<close>

definition RunTest ::
  "Globals \<Rightarrow> LiveWorld \<Rightarrow> (TestState \<Rightarrow> unit outcome \<times> TestState) \<Rightarrow> (TestState \<Rightarrow> TestState)
     \<Rightarrow> string \<Rightarrow> int \<Rightarrow> string \<Rightarrow> TestTransactionType \<Rightarrow> (TestState \<times> RunEvent list) option" where
  "RunTest G lw fn produce testName timeout ip testTransactionType =
     (let t0 = newTestEnv testName testTransactionType;
          s0 = \<lparr>tsEnv = t0, tsCtxs = [], TTDReached = False\<rparr>;
          evs0 = [NewCLMocker, AddEngineClient, NewEngineClient, DialHTTPWithClient];
          stack0 = [DSyncCancel, DCloseTestend, DCancelLastCtx, DRpcClientClose,
                    DEngineClientClose, DCloseClients]
      in case CheckEthEngineLive G lw ip of
           None \<Rightarrow> None
         | Some (Some err, levs) \<Rightarrow>
             Some (runAllDeferred produce stack0
                     (s0\<lparr>tsEnv := Fatalf t0 (PortsNeverOpen testName err)\<rparr>, evs0 @ [CheckLive levs]))
         | Some (None, levs) \<Rightarrow>
             (case fn (armedState testName timeout testTransactionType) of
                (out, s2) \<Rightarrow>
                  Some (runAllDeferred produce (DProduceLastBlock # stack0)
                          (s2, evs0 @ [CheckLive levs, ArmTimeouts timeout, TestBody]))))"

section \<open>Sample inputs\<close>

text \<open>Concrete values on which the properties below are evaluated.\<close>

definition sampleGlobals :: Globals where
  "sampleGlobals =
     \<lparr>gasPrice = 30000000000, gasTipPrice = 1000000000, chainID = 7, big0 = 0,
      rpcTimeout = 10 * Second, EthPortHTTP = 8545, EnginePortHTTP = 8551\<rparr>"

definition acceptingSigner :: SignFn where
  "acceptingSigner s d k = Inr [0x1b]"

definition failingSigner :: SignFn where
  "failingSigner s d k = Inl ''invalid key''"

definition sampleEnv :: "uint64 \<Rightarrow> TestTransactionType \<Rightarrow> TestEnv" where
  "sampleEnv n ty = (newTestEnv ''sample'' ty)\<lparr>nonce := n\<rparr>"

definition sampleLegacyTx :: Transaction where
  "sampleLegacyTx =
     \<lparr>inner = LegacyTx 4 (Some 0xaa) 1 75000 30000000000 [],
      signedBy = Some (LondonSigner 7, vaultKey, [0x1b])\<rparr>"

definition sampleDynamicFeeTx :: Transaction where
  "sampleDynamicFeeTx =
     \<lparr>inner = DynamicFeeTx 5 75000 1000000000 30000000000 (Some 0xaa) 1 [],
      signedBy = Some (LondonSigner 7, vaultKey, [0x1b])\<rparr>"

definition sampleEnvAfter :: "TestTransactionType \<Rightarrow> TestEnv" where
  "sampleEnvAfter ty =
     (Logf (sampleEnv 4 ty)
        (BuiltNextTransaction ''sample'' sampleLegacyTx 4 (Some 0xaa) ''Legacy''))\<lparr>nonce := 5\<rparr>"

text \<open>
  Three nodes: one accepts at the third attempt while the deadline is far away, one
  accepts at once although the deadline has already fired, and one never accepts and
  the deadline fires during the second wait.
\<close>

definition flakyWorld :: SendWorld where
  "flakyWorld =
     \<lparr>sendErr = (\<lambda>i tx. if i < 2 then Some ''connection refused'' else None),
      timeoutWithin = (\<lambda>i d. False)\<rparr>"



text \<open>A fourth node never accepts while the deadline never fires.\<close>

definition silentWorld :: SendWorld where
  "silentWorld =
     \<lparr>sendErr = (\<lambda>i tx. Some ''connection refused''),
      timeoutWithin = (\<lambda>i d. False)\<rparr>"

text \<open>
  Two networks. In the first the HTTP port answers the second dial and the engine port
  the second dial after that. In the second the engine port never answers and the
  context is done at the fifth \<^verbatim>\<open>select\<close>.
\<close>

definition openingWorld :: LiveWorld where
  "openingWorld =
     \<lparr>selected = (\<lambda>n. Tick),
      dialOk = (\<lambda>n ip port. (n = 1 \<and> port = 8545) \<or> (n = 3 \<and> port = 8551))\<rparr>"

definition closedEngineWorld :: LiveWorld where
  "closedEngineWorld =
     \<lparr>selected = (\<lambda>n. if n < 4 then Tick else CtxDone),
      dialOk = (\<lambda>n ip port. n = 1 \<and> port = 8545)\<rparr>"

text \<open>The context that \<^verbatim>\<open>Ctx\<close> creates under the sample configuration, cancelled \<open>k\<close> times.\<close>

definition sampleCtx :: "nat \<Rightarrow> Context" where
  "sampleCtx k = \<lparr>ctxParent = None, ctxTimeout = 10 * Second, cancelCalls = k\<rparr>"

definition sampleEnvHolding :: "nat \<Rightarrow> TestEnv" where
  "sampleEnvHolding c =
     (newTestEnv ''sample'' UnspecifiedTransactionType)\<lparr>lastCtx := Some c, lastCancel := Some c\<rparr>"

text \<open>
  Three test bodies: one reaches the threshold and passes, one reaches it and fails
  fatally, one returns without reaching it. Producing a block changes nothing here.
\<close>

definition passingBody :: "TestState \<Rightarrow> unit outcome \<times> TestState" where
  "passingBody s = (Return (), s\<lparr>TTDReached := True\<rparr>)"

definition failingBody :: "TestState \<Rightarrow> unit outcome \<times> TestState" where
  "failingBody s =
     (FailNow, s\<lparr>TTDReached := True,
                 tsEnv := Fatalf (tsEnv s) (SendTimeout ''sample'' ''connection refused'')\<rparr>)"

definition powBody :: "TestState \<Rightarrow> unit outcome \<times> TestState" where
  "powBody s = (Return (), s)"

section \<open>Properties of the transaction builder\<close>

subsection \<open>Auxiliary facts\<close>

lemma txTypeToUse_cases: "txTypeToUse t = LegacyTxType \<or> txTypeToUse t = DynamicFeeTxType"
  unfolding txTypeToUse_def LegacyTxType_def DynamicFeeTxType_def
  by (auto simp: odd_iff_mod_2_eq_one even_iff_mod_2_eq_zero)

lemma newTxData_Some: "\<exists>d n. newTxData G t r g a p = Some (d, n)"
  using txTypeToUse_cases [of t] by (auto simp: newTxData_def Let_def)

lemma newTxData_nonce: "newTxData G t r g a p = Some (d, n) \<Longrightarrow> txNonce d = nonce t"
  by (auto simp: newTxData_def Let_def split: if_splits)

lemma newTxData_type: "newTxData G t r g a p = Some (d, n) \<Longrightarrow> txType d = txTypeToUse t"
  by (auto simp: newTxData_def Let_def split: if_splits)

lemma newTxData_gas: "newTxData G t r g a p = Some (d, n) \<Longrightarrow> txGas d = g"
  by (auto simp: newTxData_def Let_def split: if_splits)

lemma newTxData_shape:
  "newTxData G t r g a p = Some (d, n) \<Longrightarrow>
     d = LegacyTx (nonce t) r a g (gasPrice G) p
     \<or> d = DynamicFeeTx (nonce t) g (gasTipPrice G) (gasPrice G) r a p"
  by (auto simp: newTxData_def Let_def split: if_splits)

lemma SignTx_inner: "SignTx sg tx s k = Inr tx' \<Longrightarrow> inner tx' = inner tx"
  by (auto simp: SignTx_def split: sum.splits)

text \<open>What a call that returns has done.\<close>

lemma makeNextTransaction_Return:
  assumes "makeNextTransaction G sg t r g a p = (Return tx, t')"
  shows "\<exists>d n. newTxData G t r g a p = Some (d, n) \<and> inner tx = d
           \<and> SignTx sg (NewTx d) (NewLondonSigner (chainID G)) vaultKey = Inr tx
           \<and> t' = (Logf t (BuiltNextTransaction (TestName t) tx (nonce t) r n))\<lparr>nonce := nonce t + 1\<rparr>"
proof -
  from assms obtain d n where d: "newTxData G t r g a p = Some (d, n)"
    by (auto simp: makeNextTransaction_def split: option.splits)
  from assms d have s: "SignTx sg (NewTx d) (NewLondonSigner (chainID G)) vaultKey = Inr tx"
    by (auto simp: makeNextTransaction_def split: sum.splits)
  from assms d s
  have "t' = (Logf t (BuiltNextTransaction (TestName t) tx (nonce t) r n))\<lparr>nonce := nonce t + 1\<rparr>"
    by (simp add: makeNextTransaction_def)
  moreover from SignTx_inner [OF s] have "inner tx = d" by (simp add: NewTx_def)
  ultimately show ?thesis using d s by simp
qed

lemma makeNextTransaction_not_Panic: "makeNextTransaction G sg t r g a p \<noteq> (Panic, t')"
  using newTxData_Some [of G t r g a p]
  by (auto simp: makeNextTransaction_def split: sum.splits)

text \<open>The call as a function of what the signature primitive answers on the data built.\<close>

lemma makeNextTransaction_signed:
  assumes "newTxData G t r g a p = Some (d, nm)"
    and "sg (NewLondonSigner (chainID G)) d vaultKey = Inr sigbytes"
  shows "makeNextTransaction G sg t r g a p =
           (Return \<lparr>inner = d, signedBy = Some (LondonSigner (chainID G), vaultKey, sigbytes)\<rparr>,
            (Logf t (BuiltNextTransaction (TestName t)
                       \<lparr>inner = d, signedBy = Some (LondonSigner (chainID G), vaultKey, sigbytes)\<rparr>
                       (nonce t) r nm))\<lparr>nonce := nonce t + 1\<rparr>)"
  using assms by (simp add: makeNextTransaction_def SignTx_def NewTx_def NewLondonSigner_def)

lemma makeNextTransaction_not_signed:
  assumes "newTxData G t r g a p = Some (d, nm)"
    and "sg (NewLondonSigner (chainID G)) d vaultKey = Inl err"
  shows "makeNextTransaction G sg t r g a p = (FailNow, Fatalf t (CouldNotSign (TestName t) err))"
  using assms by (simp add: makeNextTransaction_def SignTx_def NewTx_def NewLondonSigner_def)

lemma newTxData_Legacy:
  assumes "txTypeToUse t = LegacyTxType"
  shows "newTxData G t r g a p = Some (LegacyTx (nonce t) r a g (gasPrice G) p, ''Legacy'')"
  using assms by (simp add: newTxData_def)

lemma newTxData_DynamicFee:
  assumes "txTypeToUse t = DynamicFeeTxType"
  shows "newTxData G t r g a p
           = Some (DynamicFeeTx (nonce t) g (gasTipPrice G) (gasPrice G) r a p, ''DynamicFeeTx'')"
  using assms by (simp add: newTxData_def LegacyTxType_def DynamicFeeTxType_def)

text \<open>The builder on the sample environment at nonce 4, for the two policies that give a legacy transaction there.\<close>

lemma sample_built_LegacyTxOnly:
  "makeNextTransaction sampleGlobals acceptingSigner (sampleEnv 4 LegacyTxOnly) (Some 0xaa) 75000 1 []
     = (Return sampleLegacyTx, sampleEnvAfter LegacyTxOnly)"
  by (simp add: makeNextTransaction_def newTxData_def txTypeToUse_def sampleEnv_def newTestEnv_def
      sampleGlobals_def acceptingSigner_def SignTx_def NewTx_def NewLondonSigner_def
      LegacyTxOnly_def UnspecifiedTransactionType_def LegacyTxType_def DynamicFeeTxType_def
      sampleLegacyTx_def sampleEnvAfter_def)

lemma sample_built_Unspecified:
  "makeNextTransaction sampleGlobals acceptingSigner (sampleEnv 4 UnspecifiedTransactionType)
       (Some 0xaa) 75000 1 []
     = (Return sampleLegacyTx, sampleEnvAfter UnspecifiedTransactionType)"
  by (simp add: makeNextTransaction_def newTxData_def txTypeToUse_def sampleEnv_def newTestEnv_def
      sampleGlobals_def acceptingSigner_def SignTx_def NewTx_def NewLondonSigner_def
      UnspecifiedTransactionType_def LegacyTxType_def DynamicFeeTxType_def
      sampleLegacyTx_def sampleEnvAfter_def)

lemma sample_built_DynamicFee:
  "makeNextTransaction sampleGlobals acceptingSigner (sampleEnvAfter UnspecifiedTransactionType)
       (Some 0xaa) 75000 1 []
     = (Return sampleDynamicFeeTx,
        (Logf (sampleEnvAfter UnspecifiedTransactionType)
           (BuiltNextTransaction ''sample'' sampleDynamicFeeTx 5 (Some 0xaa) ''DynamicFeeTx''))
          \<lparr>nonce := 6\<rparr>)"
  by (simp add: makeNextTransaction_def newTxData_def txTypeToUse_def sampleEnv_def newTestEnv_def
      sampleGlobals_def acceptingSigner_def SignTx_def NewTx_def NewLondonSigner_def
      UnspecifiedTransactionType_def LegacyTxType_def DynamicFeeTxType_def
      sampleDynamicFeeTx_def sampleEnvAfter_def Logf_def)

lemma sample_not_signed:
  "makeNextTransaction sampleGlobals failingSigner (sampleEnv 4 LegacyTxOnly) (Some 0xaa) 75000 1 []
     = (FailNow, Fatalf (sampleEnv 4 LegacyTxOnly) (CouldNotSign ''sample'' ''invalid key''))"
  by (simp add: makeNextTransaction_def newTxData_def txTypeToUse_def sampleEnv_def newTestEnv_def
      sampleGlobals_def failingSigner_def SignTx_def NewTx_def NewLondonSigner_def
      LegacyTxOnly_def UnspecifiedTransactionType_def LegacyTxType_def DynamicFeeTxType_def)

subsection \<open>The nonce\<close>

text \<open>
  C1, as the claim states it, fails: when signing fails the call ends in \<^verbatim>\<open>Fatalf\<close>
  before the increment, so the stored nonce is not increased. On the sample environment
  at nonce 4 with a signer that fails, the call ends the test and the nonce is still 4.
\<close>

theorem nonce_kept_when_signing_fails:
  "fst (makeNextTransaction sampleGlobals failingSigner (sampleEnv 4 LegacyTxOnly) (Some 0xaa) 75000 1 [])
     = FailNow
   \<and> nonce (snd (makeNextTransaction sampleGlobals failingSigner (sampleEnv 4 LegacyTxOnly)
                   (Some 0xaa) 75000 1 [])) = 4
   \<and> nonce (snd (makeNextTransaction sampleGlobals failingSigner (sampleEnv 4 LegacyTxOnly)
                   (Some 0xaa) 75000 1 [])) \<noteq> nonce (sampleEnv 4 LegacyTxOnly) + 1"
  unfolding sample_not_signed by (simp add: Fatalf_def sampleEnv_def)

text \<open>
  C1 (amended): a call of the builder builds the transaction data with the stored nonce
  and hands it to the signature primitive. When the primitive succeeds, the call returns
  the data signed by the London signer of the configured chain with the vault key, the
  stored nonce has increased by exactly 1 (in 64-bit arithmetic) and the transaction
  carries the nonce from before the increment. When the primitive fails, the call ends
  the test (the test is marked failed) and the stored nonce is unchanged. So in every
  outcome the nonce is the old one plus 1 if a transaction is returned and the old one
  otherwise, and the call never panics.
\<close>

theorem makeNextTransaction_nonce_step:
  "(\<exists>d nm. newTxData G t recipient gasLimit amount payload = Some (d, nm) \<and> txNonce d = nonce t
      \<and> (case sg (NewLondonSigner (chainID G)) d vaultKey of
            Inr sigbytes \<Rightarrow>
              (\<exists>tx t'. makeNextTransaction G sg t recipient gasLimit amount payload = (Return tx, t')
                 \<and> tx = \<lparr>inner = d, signedBy = Some (LondonSigner (chainID G), vaultKey, sigbytes)\<rparr>
                 \<and> txNonce (inner tx) = nonce t
                 \<and> nonce t' = nonce t + 1
                 \<and> unat (nonce t') = (unat (nonce t) + 1) mod 2 ^ 64)
          | Inl err \<Rightarrow>
              (\<exists>t'. makeNextTransaction G sg t recipient gasLimit amount payload = (FailNow, t')
                 \<and> t' = Fatalf t (CouldNotSign (TestName t) err)
                 \<and> nonce t' = nonce t \<and> failed t')))
   \<and> (case makeNextTransaction G sg t recipient gasLimit amount payload of
        (Return tx, t') \<Rightarrow>
           nonce t' = nonce t + 1 \<and> unat (nonce t') = (unat (nonce t) + 1) mod 2 ^ 64
           \<and> txNonce (inner tx) = nonce t
      | (FailNow, t') \<Rightarrow> nonce t' = nonce t \<and> failed t'
      | (Panic, t') \<Rightarrow> False)"
proof -
  obtain d nm where d: "newTxData G t recipient gasLimit amount payload = Some (d, nm)"
    using newTxData_Some by blast
  note n = newTxData_nonce [OF d]
  have by_signer: "case sg (NewLondonSigner (chainID G)) d vaultKey of
            Inr sigbytes \<Rightarrow>
              (\<exists>tx t'. makeNextTransaction G sg t recipient gasLimit amount payload = (Return tx, t')
                 \<and> tx = \<lparr>inner = d, signedBy = Some (LondonSigner (chainID G), vaultKey, sigbytes)\<rparr>
                 \<and> txNonce (inner tx) = nonce t
                 \<and> nonce t' = nonce t + 1
                 \<and> unat (nonce t') = (unat (nonce t) + 1) mod 2 ^ 64)
          | Inl err \<Rightarrow>
              (\<exists>t'. makeNextTransaction G sg t recipient gasLimit amount payload = (FailNow, t')
                 \<and> t' = Fatalf t (CouldNotSign (TestName t) err)
                 \<and> nonce t' = nonce t \<and> failed t')"
  proof (cases "sg (NewLondonSigner (chainID G)) d vaultKey")
    case (Inl err)
    from makeNextTransaction_not_signed [where sg = sg, OF d Inl] Inl show ?thesis
      by (simp add: Fatalf_def)
  next
    case (Inr sigbytes)
    from makeNextTransaction_signed [where sg = sg, OF d Inr] Inr n show ?thesis
      by (simp add: Logf_def unat_word_ariths)
  qed
  have by_outcome: "case makeNextTransaction G sg t recipient gasLimit amount payload of
        (Return tx, t') \<Rightarrow>
           nonce t' = nonce t + 1 \<and> unat (nonce t') = (unat (nonce t) + 1) mod 2 ^ 64
           \<and> txNonce (inner tx) = nonce t
      | (FailNow, t') \<Rightarrow> nonce t' = nonce t \<and> failed t'
      | (Panic, t') \<Rightarrow> False"
  proof (cases "sg (NewLondonSigner (chainID G)) d vaultKey")
    case (Inl err)
    from makeNextTransaction_not_signed [where sg = sg, OF d Inl] show ?thesis
      by (simp add: Fatalf_def)
  next
    case (Inr sigbytes)
    from makeNextTransaction_signed [where sg = sg, OF d Inr] n show ?thesis
      by (simp add: Logf_def unat_word_ariths)
  qed
  from d n by_signer by_outcome show ?thesis by blast
qed

text \<open>On the sample environment the two signers give the two cases.\<close>

lemma sample_newTxData:
  "newTxData sampleGlobals (sampleEnv 4 LegacyTxOnly) (Some 0xaa) 75000 1 []
     = Some (LegacyTx 4 (Some 0xaa) 1 75000 30000000000 [], ''Legacy'')"
  by (simp add: newTxData_def txTypeToUse_def sampleEnv_def newTestEnv_def sampleGlobals_def
      LegacyTxOnly_def UnspecifiedTransactionType_def LegacyTxType_def)

theorem makeNextTransaction_nonce_step_witness:
  "(\<exists>t'. makeNextTransaction sampleGlobals acceptingSigner (sampleEnv 4 LegacyTxOnly)
             (Some 0xaa) 75000 1 []
           = (Return \<lparr>inner = LegacyTx 4 (Some 0xaa) 1 75000 30000000000 [],
                      signedBy = Some (LondonSigner (chainID sampleGlobals), vaultKey, [0x1b])\<rparr>, t')
         \<and> nonce t' = nonce (sampleEnv 4 LegacyTxOnly) + 1)
   \<and> (\<exists>t'. makeNextTransaction sampleGlobals failingSigner (sampleEnv 4 LegacyTxOnly)
             (Some 0xaa) 75000 1 [] = (FailNow, t')
         \<and> nonce t' = nonce (sampleEnv 4 LegacyTxOnly) \<and> failed t')"
proof -
  note accepted = makeNextTransaction_nonce_step [where G = sampleGlobals and sg = acceptingSigner
      and t = "sampleEnv 4 LegacyTxOnly" and recipient = "Some 0xaa" and gasLimit = 75000
      and amount = 1 and payload = "[]", THEN conjunct1, unfolded sample_newTxData]
  note refused = makeNextTransaction_nonce_step [where G = sampleGlobals and sg = failingSigner
      and t = "sampleEnv 4 LegacyTxOnly" and recipient = "Some 0xaa" and gasLimit = 75000
      and amount = 1 and payload = "[]", THEN conjunct1, unfolded sample_newTxData]
  have ok: "acceptingSigner (NewLondonSigner (chainID sampleGlobals))
              (LegacyTx 4 (Some 0xaa) 1 75000 30000000000 []) vaultKey = Inr [0x1b]"
    by (simp add: acceptingSigner_def)
  have bad: "failingSigner (NewLondonSigner (chainID sampleGlobals))
              (LegacyTx 4 (Some 0xaa) 1 75000 30000000000 []) vaultKey = Inl ''invalid key''"
    by (simp add: failingSigner_def)
  from accepted ok
  have one: "\<exists>t'. makeNextTransaction sampleGlobals acceptingSigner (sampleEnv 4 LegacyTxOnly)
             (Some 0xaa) 75000 1 []
           = (Return \<lparr>inner = LegacyTx 4 (Some 0xaa) 1 75000 30000000000 [],
                      signedBy = Some (LondonSigner (chainID sampleGlobals), vaultKey, [0x1b])\<rparr>, t')
         \<and> nonce t' = nonce (sampleEnv 4 LegacyTxOnly) + 1"
    by auto
  from refused bad
  have two: "\<exists>t'. makeNextTransaction sampleGlobals failingSigner (sampleEnv 4 LegacyTxOnly)
             (Some 0xaa) 75000 1 [] = (FailNow, t')
         \<and> nonce t' = nonce (sampleEnv 4 LegacyTxOnly) \<and> failed t'"
    by auto
  from one two show ?thesis by (intro conjI)
qed

subsection \<open>The transaction type\<close>

lemma txTypeToUse_Unspecified:
  "TestTransactionType t = UnspecifiedTransactionType \<Longrightarrow>
     txTypeToUse t = (if even (nonce t) then LegacyTxType else DynamicFeeTxType)"
  by (auto simp: txTypeToUse_def even_iff_mod_2_eq_zero odd_iff_mod_2_eq_one)

text \<open>
  In a run of builder calls under the unspecified policy, the \<open>i\<close>-th transaction has
  the nonce \<open>i\<close> places after the first and the type that the parity of this nonce gives.
\<close>

lemma makeTransactions_types:
  "TestTransactionType t = UnspecifiedTransactionType \<Longrightarrow>
   makeTransactions G sg t args = (txs, t') \<Longrightarrow> i < length txs \<Longrightarrow>
     txNonce (inner (txs ! i)) = nonce t + of_nat i \<and>
     txType (inner (txs ! i)) = (if even (nonce t + of_nat i) then LegacyTxType else DynamicFeeTxType)"
proof (induction args arbitrary: t txs t' i)
  case Nil
  then show ?case by simp
next
  case (Cons c rest)
  obtain r g a p where c: "c = (r, g, a, p)" by (cases c) auto
  show ?case
  proof (cases "makeNextTransaction G sg t r g a p")
    case (Pair out t1)
    show ?thesis
    proof (cases out)
      case (Return tx)
      obtain txs1 t2 where rec: "makeTransactions G sg t1 rest = (txs1, t2)"
        by (cases "makeTransactions G sg t1 rest") auto
      from Cons.prems(2) c Pair Return rec have txs: "txs = tx # txs1" and t2: "t2 = t'" by simp_all
      from makeNextTransaction_Return [OF Pair [unfolded Return]]
      obtain d n where d: "newTxData G t r g a p = Some (d, n)" "inner tx = d"
        and t1: "t1 = (Logf t (BuiltNextTransaction (TestName t) tx (nonce t) r n))\<lparr>nonce := nonce t + 1\<rparr>"
        by blast
      have pol: "TestTransactionType t1 = UnspecifiedTransactionType"
        using Cons.prems(1) t1 by (simp add: Logf_def)
      have n1: "nonce t1 = nonce t + 1" using t1 by simp
      show ?thesis
      proof (cases i)
        case 0
        with txs d newTxData_nonce [OF d(1)] newTxData_type [OF d(1)]
          txTypeToUse_Unspecified [OF Cons.prems(1)]
        show ?thesis by simp
      next
        case (Suc j)
        with Cons.prems(3) txs have "j < length txs1" by simp
        from Cons.IH [OF pol rec this] Suc txs n1 show ?thesis
          by (simp add: algebra_simps)
      qed
    next
      case FailNow
      with Cons.prems c Pair show ?thesis by simp
    next
      case Panic
      with Cons.prems c Pair show ?thesis by simp
    qed
  qed
qed

text \<open>A run in which every signature succeeds builds one transaction per call.\<close>

lemma makeTransactions_length:
  "(\<And>s d k. \<exists>b. sg s d k = Inr b) \<Longrightarrow> length (fst (makeTransactions G sg t args)) = length args"
proof (induction args arbitrary: t)
  case Nil
  then show ?case by simp
next
  case (Cons c rest)
  obtain r g a p where c: "c = (r, g, a, p)" by (cases c) auto
  obtain d n where d: "newTxData G t r g a p = Some (d, n)"
    using newTxData_Some by blast
  obtain b where b: "sg (NewLondonSigner (chainID G)) d vaultKey = Inr b"
    using Cons.prems by blast
  then obtain tx t1 where "makeNextTransaction G sg t r g a p = (Return tx, t1)"
    using d by (simp add: makeNextTransaction_def SignTx_def NewTx_def)
  with Cons.IH [OF Cons.prems, of t1] c show ?case
    by (auto split: prod.splits)
qed

text \<open>
  C2: under the unspecified policy, a call at an even nonce hands a legacy transaction
  to the signature primitive and a call at an odd nonce a dynamic-fee transaction, and
  when the primitive succeeds the call returns that transaction; so whatever the call
  returns is legacy at an even nonce and dynamic-fee at an odd one. In a run of calls that
  starts at nonce 0 the \<open>i\<close>-th transaction built (counting from 0) has nonce \<open>i\<close> and is
  legacy for even \<open>i\<close> and dynamic-fee for odd \<open>i\<close>, so the types alternate beginning
  with legacy; and when every signature succeeds the run builds one transaction per call.
\<close>

theorem unspecified_types_alternate:
  assumes "TestTransactionType t = UnspecifiedTransactionType"
  shows "(\<forall>sigbytes. nonce t mod 2 = 0 \<longrightarrow>
            sg (NewLondonSigner (chainID G))
               (LegacyTx (nonce t) recipient amount gasLimit (gasPrice G) payload) vaultKey = Inr sigbytes \<longrightarrow>
            (\<exists>t'. makeNextTransaction G sg t recipient gasLimit amount payload
                   = (Return \<lparr>inner = LegacyTx (nonce t) recipient amount gasLimit (gasPrice G) payload,
                              signedBy = Some (LondonSigner (chainID G), vaultKey, sigbytes)\<rparr>, t')))
       \<and> (\<forall>sigbytes. nonce t mod 2 \<noteq> 0 \<longrightarrow>
            sg (NewLondonSigner (chainID G))
               (DynamicFeeTx (nonce t) gasLimit (gasTipPrice G) (gasPrice G) recipient amount payload)
               vaultKey = Inr sigbytes \<longrightarrow>
            (\<exists>t'. makeNextTransaction G sg t recipient gasLimit amount payload
                   = (Return \<lparr>inner = DynamicFeeTx (nonce t) gasLimit (gasTipPrice G) (gasPrice G)
                                        recipient amount payload,
                              signedBy = Some (LondonSigner (chainID G), vaultKey, sigbytes)\<rparr>, t')))
       \<and> (\<forall>tx t'. makeNextTransaction G sg t recipient gasLimit amount payload = (Return tx, t') \<longrightarrow>
            txType (inner tx) = (if nonce t mod 2 = 0 then LegacyTxType else DynamicFeeTxType))
       \<and> (\<forall>args txs t' i. nonce t = 0 \<longrightarrow> makeTransactions G sg t args = (txs, t') \<longrightarrow> i < length txs \<longrightarrow>
            txNonce (inner (txs ! i)) = of_nat i
            \<and> txType (inner (txs ! i)) = (if even i then LegacyTxType else DynamicFeeTxType))
       \<and> ((\<forall>s d k. \<exists>b. sg s d k = Inr b) \<longrightarrow>
            (\<forall>args. length (fst (makeTransactions G sg t args)) = length args))"
proof -
  note ty = txTypeToUse_Unspecified [OF assms]
  have legacy: "\<forall>sigbytes. nonce t mod 2 = 0 \<longrightarrow>
            sg (NewLondonSigner (chainID G))
               (LegacyTx (nonce t) recipient amount gasLimit (gasPrice G) payload) vaultKey = Inr sigbytes \<longrightarrow>
            (\<exists>t'. makeNextTransaction G sg t recipient gasLimit amount payload
                   = (Return \<lparr>inner = LegacyTx (nonce t) recipient amount gasLimit (gasPrice G) payload,
                              signedBy = Some (LondonSigner (chainID G), vaultKey, sigbytes)\<rparr>, t'))"
  proof (intro allI impI)
    fix sigbytes
    assume ev: "nonce t mod 2 = 0"
      and ok: "sg (NewLondonSigner (chainID G))
               (LegacyTx (nonce t) recipient amount gasLimit (gasPrice G) payload) vaultKey = Inr sigbytes"
    from ev ty have "txTypeToUse t = LegacyTxType" by (simp add: even_iff_mod_2_eq_zero)
    from makeNextTransaction_signed [where sg = sg, OF newTxData_Legacy [OF this] ok]
    show "\<exists>t'. makeNextTransaction G sg t recipient gasLimit amount payload
                   = (Return \<lparr>inner = LegacyTx (nonce t) recipient amount gasLimit (gasPrice G) payload,
                              signedBy = Some (LondonSigner (chainID G), vaultKey, sigbytes)\<rparr>, t')"
      by blast
  qed
  have dynamic: "\<forall>sigbytes. nonce t mod 2 \<noteq> 0 \<longrightarrow>
            sg (NewLondonSigner (chainID G))
               (DynamicFeeTx (nonce t) gasLimit (gasTipPrice G) (gasPrice G) recipient amount payload)
               vaultKey = Inr sigbytes \<longrightarrow>
            (\<exists>t'. makeNextTransaction G sg t recipient gasLimit amount payload
                   = (Return \<lparr>inner = DynamicFeeTx (nonce t) gasLimit (gasTipPrice G) (gasPrice G)
                                        recipient amount payload,
                              signedBy = Some (LondonSigner (chainID G), vaultKey, sigbytes)\<rparr>, t'))"
  proof (intro allI impI)
    fix sigbytes
    assume od: "nonce t mod 2 \<noteq> 0"
      and ok: "sg (NewLondonSigner (chainID G))
               (DynamicFeeTx (nonce t) gasLimit (gasTipPrice G) (gasPrice G) recipient amount payload)
               vaultKey = Inr sigbytes"
    from od ty have "txTypeToUse t = DynamicFeeTxType" by (simp add: even_iff_mod_2_eq_zero)
    from makeNextTransaction_signed [where sg = sg, OF newTxData_DynamicFee [OF this] ok]
    show "\<exists>t'. makeNextTransaction G sg t recipient gasLimit amount payload
                   = (Return \<lparr>inner = DynamicFeeTx (nonce t) gasLimit (gasTipPrice G) (gasPrice G)
                                        recipient amount payload,
                              signedBy = Some (LondonSigner (chainID G), vaultKey, sigbytes)\<rparr>, t')"
      by blast
  qed
  have returned: "\<forall>tx t'. makeNextTransaction G sg t recipient gasLimit amount payload = (Return tx, t') \<longrightarrow>
            txType (inner tx) = (if nonce t mod 2 = 0 then LegacyTxType else DynamicFeeTxType)"
  proof (intro allI impI)
    fix tx t'
    assume "makeNextTransaction G sg t recipient gasLimit amount payload = (Return tx, t')"
    from makeNextTransaction_Return [OF this] newTxData_type ty
    show "txType (inner tx) = (if nonce t mod 2 = 0 then LegacyTxType else DynamicFeeTxType)"
      by (auto simp: even_iff_mod_2_eq_zero)
  qed
  have run: "\<forall>args txs t' i. nonce t = 0 \<longrightarrow> makeTransactions G sg t args = (txs, t') \<longrightarrow> i < length txs \<longrightarrow>
            txNonce (inner (txs ! i)) = of_nat i
            \<and> txType (inner (txs ! i)) = (if even i then LegacyTxType else DynamicFeeTxType)"
  proof (intro allI impI)
    fix args txs t' i
    assume *: "nonce t = 0" "makeTransactions G sg t args = (txs, t')" "i < length txs"
    with makeTransactions_types [OF assms, of G sg args txs t' i]
    show "txNonce (inner (txs ! i)) = of_nat i
            \<and> txType (inner (txs ! i)) = (if even i then LegacyTxType else DynamicFeeTxType)"
      by (simp add: even_of_nat_iff)
  qed
  have total: "(\<forall>s d k. \<exists>b. sg s d k = Inr b) \<longrightarrow>
            (\<forall>args. length (fst (makeTransactions G sg t args)) = length args)"
    using makeTransactions_length [of sg G t] by blast
  from legacy dynamic returned run total show ?thesis by (intro conjI)
qed

text \<open>Three calls from nonce 0 on the sample environment: legacy, dynamic-fee, legacy.\<close>

lemma sample_run:
  "makeTransactions sampleGlobals acceptingSigner (sampleEnv 0 UnspecifiedTransactionType)
     [(Some 0xaa, 75000, 1, []), (None, 60000, 0, [0x67]), (Some 0xbb, 21000, 2, [])]
   = ([\<lparr>inner = LegacyTx 0 (Some 0xaa) 1 75000 30000000000 [],
        signedBy = Some (LondonSigner 7, vaultKey, [0x1b])\<rparr>,
       \<lparr>inner = DynamicFeeTx 1 60000 1000000000 30000000000 None 0 [0x67],
        signedBy = Some (LondonSigner 7, vaultKey, [0x1b])\<rparr>,
       \<lparr>inner = LegacyTx 2 (Some 0xbb) 2 21000 30000000000 [],
        signedBy = Some (LondonSigner 7, vaultKey, [0x1b])\<rparr>],
      snd (makeTransactions sampleGlobals acceptingSigner (sampleEnv 0 UnspecifiedTransactionType)
        [(Some 0xaa, 75000, 1, []), (None, 60000, 0, [0x67]), (Some 0xbb, 21000, 2, [])]))"
  by (simp add: makeNextTransaction_def newTxData_def txTypeToUse_def sampleEnv_def newTestEnv_def
      sampleGlobals_def acceptingSigner_def SignTx_def NewTx_def NewLondonSigner_def
      UnspecifiedTransactionType_def LegacyTxType_def DynamicFeeTxType_def Logf_def)

theorem unspecified_types_alternate_witness:
  "txType (LegacyTx 0 (Some 0xaa) 1 75000 30000000000 []) = LegacyTxType
   \<and> txType (DynamicFeeTx 1 60000 1000000000 30000000000 None 0 [0x67]) = DynamicFeeTxType
   \<and> txType (LegacyTx 2 (Some 0xbb) 2 21000 30000000000 []) = LegacyTxType
   \<and> TestTransactionType (sampleEnv 0 UnspecifiedTransactionType) = UnspecifiedTransactionType
   \<and> nonce (sampleEnv 0 UnspecifiedTransactionType) = 0
   \<and> length (fst (makeTransactions sampleGlobals acceptingSigner
         (sampleEnv 0 UnspecifiedTransactionType)
         [(Some 0xaa, 75000, 1, []), (None, 60000, 0, [0x67]), (Some 0xbb, 21000, 2, [])])) = 3
   \<and> (\<exists>t'. makeNextTransaction sampleGlobals acceptingSigner
         (sampleEnv 0 UnspecifiedTransactionType) (Some 0xaa) 75000 1 []
         = (Return \<lparr>inner = LegacyTx (nonce (sampleEnv 0 UnspecifiedTransactionType)) (Some 0xaa) 1 75000
                               (gasPrice sampleGlobals) [],
                    signedBy = Some (LondonSigner (chainID sampleGlobals), vaultKey, [0x1b])\<rparr>, t'))"
proof -
  have pol: "TestTransactionType (sampleEnv 0 UnspecifiedTransactionType) = UnspecifiedTransactionType"
    and n0: "nonce (sampleEnv 0 UnspecifiedTransactionType) = 0"
    by (simp_all add: sampleEnv_def newTestEnv_def)
  note inst = unspecified_types_alternate [where sg = acceptingSigner and G = sampleGlobals, OF pol]
  note run = inst [THEN conjunct2, THEN conjunct2, THEN conjunct2, THEN conjunct1, rule_format,
      OF n0 sample_run]
  have "\<exists>b. acceptingSigner s d k = Inr b" for s d k by (simp add: acceptingSigner_def)
  from inst [THEN conjunct2, THEN conjunct2, THEN conjunct2, THEN conjunct2, rule_format, OF this,
      of "[(Some 0xaa, 75000, 1, []), (None, 60000, 0, [0x67]), (Some 0xbb, 21000, 2, [])]"]
  have len: "length (fst (makeTransactions sampleGlobals acceptingSigner
         (sampleEnv 0 UnspecifiedTransactionType)
         [(Some 0xaa, 75000, 1, []), (None, 60000, 0, [0x67]), (Some 0xbb, 21000, 2, [])])) = 3"
    by (simp only: list.size)
  have even0: "nonce (sampleEnv 0 UnspecifiedTransactionType) mod 2 = 0" using n0 by simp
  have ok: "acceptingSigner (NewLondonSigner (chainID sampleGlobals))
      (LegacyTx (nonce (sampleEnv 0 UnspecifiedTransactionType)) (Some 0xaa) 1 75000
         (gasPrice sampleGlobals) []) vaultKey = Inr [0x1b]"
    by (simp add: acceptingSigner_def)
  note first = inst [where recipient = "Some 0xaa" and amount = 1 and gasLimit = 75000
      and payload = "[]", THEN conjunct1, rule_format, OF even0 ok]
  from run [of 0] run [of 1] run [of 2] have types:
    "txType (LegacyTx 0 (Some 0xaa) 1 75000 30000000000 []) = LegacyTxType
     \<and> txType (DynamicFeeTx 1 60000 1000000000 30000000000 None 0 [0x67]) = DynamicFeeTxType
     \<and> txType (LegacyTx 2 (Some 0xbb) 2 21000 30000000000 []) = LegacyTxType"
    by simp
  from types pol n0 len first show ?thesis by (intro conjI) blast+
qed

subsection \<open>The fields of a built transaction\<close>

text \<open>
  C7, as the claim states it, fails: whether a signed transaction is produced depends on
  the signature primitive. On the sample environment at nonce 4 under the legacy-only
  policy with a signer that fails, the call ends the test and returns no transaction.
\<close>

theorem unsigned_at_nonce_4:
  "nonce (sampleEnv 4 LegacyTxOnly) = 4
   \<and> TestTransactionType (sampleEnv 4 LegacyTxOnly) = LegacyTxOnly
   \<and> makeNextTransaction sampleGlobals failingSigner (sampleEnv 4 LegacyTxOnly) (Some 0xaa) 75000 1 []
       = (FailNow, Fatalf (sampleEnv 4 LegacyTxOnly) (CouldNotSign ''sample'' ''invalid key''))"
  unfolding sample_not_signed by (simp add: sampleEnv_def newTestEnv_def)

text \<open>
  C7 (amended): in an environment whose nonce is 4 and whose policy is unspecified or
  legacy-only, building a transaction with recipient \<open>R\<close> and value \<open>V\<close>, when signing
  succeeds, returns a legacy transaction with nonce 4, the configured gas price,
  recipient \<open>R\<close> and value \<open>V\<close>, signed by the London signer of the configured chain id
  with the vault key; the stored nonce is then 5.
\<close>

theorem legacy_transaction_at_nonce_4:
  assumes "nonce t = 4"
    and "TestTransactionType t = UnspecifiedTransactionType \<or> TestTransactionType t = LegacyTxOnly"
    and "sg (NewLondonSigner (chainID G)) (LegacyTx 4 (Some R) V gasLimit (gasPrice G) payload) vaultKey
           = Inr sigbytes"
  shows "\<exists>tx t'. makeNextTransaction G sg t (Some R) gasLimit V payload = (Return tx, t')
           \<and> inner tx = LegacyTx 4 (Some R) V gasLimit (gasPrice G) payload
           \<and> txType (inner tx) = LegacyTxType \<and> txNonce (inner tx) = 4
           \<and> lGasPrice (inner tx) = gasPrice G \<and> txTo (inner tx) = Some R \<and> txValue (inner tx) = V
           \<and> signedBy tx = Some (LondonSigner (chainID G), vaultKey, sigbytes)
           \<and> nonce t' = 5"
proof -
  have "(4 :: uint64) mod 2 = 0" by simp
  with assms(1,2) have "txTypeToUse t = LegacyTxType"
    by (auto simp: txTypeToUse_def)
  with assms(1) have "newTxData G t (Some R) gasLimit V payload
      = Some (LegacyTx 4 (Some R) V gasLimit (gasPrice G) payload, ''Legacy'')"
    by (simp add: newTxData_def)
  with assms(1,3) show ?thesis
    by (simp add: makeNextTransaction_def SignTx_def NewTx_def NewLondonSigner_def)
qed

theorem legacy_transaction_at_nonce_4_witness:
  "\<exists>tx t'. makeNextTransaction sampleGlobals acceptingSigner (sampleEnv 4 UnspecifiedTransactionType)
              (Some 0xaa) 75000 1 [] = (Return tx, t')
     \<and> inner tx = LegacyTx 4 (Some 0xaa) 1 75000 (gasPrice sampleGlobals) []
     \<and> signedBy tx = Some (LondonSigner (chainID sampleGlobals), vaultKey, [0x1b])
     \<and> nonce t' = 5"
proof -
  have "nonce (sampleEnv 4 UnspecifiedTransactionType) = 4"
    and "TestTransactionType (sampleEnv 4 UnspecifiedTransactionType) = UnspecifiedTransactionType
         \<or> TestTransactionType (sampleEnv 4 UnspecifiedTransactionType) = LegacyTxOnly"
    and "acceptingSigner (NewLondonSigner (chainID sampleGlobals))
           (LegacyTx 4 (Some 0xaa) 1 75000 (gasPrice sampleGlobals) []) vaultKey = Inr [0x1b]"
    by (simp_all add: sampleEnv_def newTestEnv_def acceptingSigner_def)
  from legacy_transaction_at_nonce_4
    [where sg = acceptingSigner and G = sampleGlobals and R = "0xaa" and V = 1
       and t = "sampleEnv 4 UnspecifiedTransactionType", OF this]
  show ?thesis
    by blast
qed

text \<open>
  C10: under the dynamic-fee-only policy, and under the unspecified policy at an odd
  nonce, the builder fills in a dynamic-fee transaction whose fee cap is the configured
  \<^verbatim>\<open>gasPrice\<close> and whose tip cap is the configured \<^verbatim>\<open>gasTipPrice\<close>, and returns it
  when signing succeeds. Every dynamic-fee transaction that the builder returns has these
  two values in these two fields, and every legacy transaction it returns has the same
  \<^verbatim>\<open>gasPrice\<close> as its gas price; no field is a sum or any other combination.
\<close>

theorem dynamic_fee_caps:
  "(TestTransactionType t = DynamicFeeTxOnly
      \<or> TestTransactionType t = UnspecifiedTransactionType \<and> nonce t mod 2 = 1 \<longrightarrow>
      newTxData G t recipient gasLimit amount payload
        = Some (DynamicFeeTx (nonce t) gasLimit (gasTipPrice G) (gasPrice G) recipient amount payload,
                ''DynamicFeeTx'')
      \<and> (\<forall>sigbytes.
            sg (NewLondonSigner (chainID G))
               (DynamicFeeTx (nonce t) gasLimit (gasTipPrice G) (gasPrice G) recipient amount payload)
               vaultKey = Inr sigbytes \<longrightarrow>
            (\<exists>tx t'. makeNextTransaction G sg t recipient gasLimit amount payload = (Return tx, t')
               \<and> inner tx = DynamicFeeTx (nonce t) gasLimit (gasTipPrice G) (gasPrice G)
                                recipient amount payload
               \<and> dGasFeeCap (inner tx) = gasPrice G \<and> dGasTipCap (inner tx) = gasTipPrice G)))
   \<and> (\<forall>tx t'. makeNextTransaction G sg t recipient gasLimit amount payload = (Return tx, t') \<longrightarrow>
         (txType (inner tx) = DynamicFeeTxType \<longrightarrow>
            inner tx = DynamicFeeTx (nonce t) gasLimit (gasTipPrice G) (gasPrice G) recipient amount payload
            \<and> dGasFeeCap (inner tx) = gasPrice G \<and> dGasTipCap (inner tx) = gasTipPrice G)
         \<and> (txType (inner tx) = LegacyTxType \<longrightarrow>
            inner tx = LegacyTx (nonce t) recipient amount gasLimit (gasPrice G) payload
            \<and> lGasPrice (inner tx) = gasPrice G))"
proof (intro conjI impI allI)
  assume pol: "TestTransactionType t = DynamicFeeTxOnly
      \<or> TestTransactionType t = UnspecifiedTransactionType \<and> nonce t mod 2 = 1"
  then have ty: "txTypeToUse t = DynamicFeeTxType"
    by (auto simp: txTypeToUse_def DynamicFeeTxOnly_def UnspecifiedTransactionType_def
        LegacyTxOnly_def even_iff_mod_2_eq_zero)
  show d: "newTxData G t recipient gasLimit amount payload
        = Some (DynamicFeeTx (nonce t) gasLimit (gasTipPrice G) (gasPrice G) recipient amount payload,
                ''DynamicFeeTx'')"
    by (rule newTxData_DynamicFee [OF ty])
  fix sigbytes
  assume "sg (NewLondonSigner (chainID G))
               (DynamicFeeTx (nonce t) gasLimit (gasTipPrice G) (gasPrice G) recipient amount payload)
               vaultKey = Inr sigbytes"
  from makeNextTransaction_signed [where sg = sg, OF d this]
  show "\<exists>tx t'. makeNextTransaction G sg t recipient gasLimit amount payload = (Return tx, t')
               \<and> inner tx = DynamicFeeTx (nonce t) gasLimit (gasTipPrice G) (gasPrice G)
                                recipient amount payload
               \<and> dGasFeeCap (inner tx) = gasPrice G \<and> dGasTipCap (inner tx) = gasTipPrice G"
    by simp
next
  fix tx t'
  assume ret: "makeNextTransaction G sg t recipient gasLimit amount payload = (Return tx, t')"
  from makeNextTransaction_Return [OF ret] obtain n where
    "newTxData G t recipient gasLimit amount payload = Some (inner tx, n)" by blast
  note shape = newTxData_shape [OF this]
  {
    assume "txType (inner tx) = DynamicFeeTxType"
    with shape
    show "inner tx = DynamicFeeTx (nonce t) gasLimit (gasTipPrice G) (gasPrice G) recipient amount payload"
      by (auto simp: LegacyTxType_def DynamicFeeTxType_def)
    then show "dGasFeeCap (inner tx) = gasPrice G" "dGasTipCap (inner tx) = gasTipPrice G"
      by simp_all
  }
  {
    assume "txType (inner tx) = LegacyTxType"
    with shape
    show "inner tx = LegacyTx (nonce t) recipient amount gasLimit (gasPrice G) payload"
      by (auto simp: LegacyTxType_def DynamicFeeTxType_def)
    then show "lGasPrice (inner tx) = gasPrice G" by simp
  }
qed

theorem dynamic_fee_caps_witness:
  "(\<exists>tx t'. makeNextTransaction sampleGlobals acceptingSigner
        (sampleEnvAfter UnspecifiedTransactionType) (Some 0xaa) 75000 1 [] = (Return tx, t')
      \<and> dGasFeeCap (inner tx) = gasPrice sampleGlobals
      \<and> dGasTipCap (inner tx) = gasTipPrice sampleGlobals)
   \<and> txType (inner sampleDynamicFeeTx) = DynamicFeeTxType
   \<and> dGasFeeCap (inner sampleDynamicFeeTx) = 30000000000
   \<and> dGasTipCap (inner sampleDynamicFeeTx) = 1000000000
   \<and> dGasFeeCap (inner sampleDynamicFeeTx) \<noteq> gasPrice sampleGlobals + gasTipPrice sampleGlobals"
proof -
  note inst = dynamic_fee_caps [where G = sampleGlobals and sg = acceptingSigner
      and t = "sampleEnvAfter UnspecifiedTransactionType" and recipient = "Some 0xaa"
      and gasLimit = 75000 and amount = 1 and payload = "[]"]
  have odd5: "TestTransactionType (sampleEnvAfter UnspecifiedTransactionType) = DynamicFeeTxOnly
      \<or> TestTransactionType (sampleEnvAfter UnspecifiedTransactionType) = UnspecifiedTransactionType
        \<and> nonce (sampleEnvAfter UnspecifiedTransactionType) mod 2 = 1"
    by (simp add: sampleEnvAfter_def sampleEnv_def newTestEnv_def Logf_def)
  have ok: "acceptingSigner (NewLondonSigner (chainID sampleGlobals))
      (DynamicFeeTx (nonce (sampleEnvAfter UnspecifiedTransactionType)) 75000
         (gasTipPrice sampleGlobals) (gasPrice sampleGlobals) (Some 0xaa) 1 []) vaultKey = Inr [0x1b]"
    by (simp add: acceptingSigner_def)
  from inst [THEN conjunct1, rule_format, OF odd5, THEN conjunct2, rule_format, OF ok]
  have built: "\<exists>tx t'. makeNextTransaction sampleGlobals acceptingSigner
        (sampleEnvAfter UnspecifiedTransactionType) (Some 0xaa) 75000 1 [] = (Return tx, t')
      \<and> dGasFeeCap (inner tx) = gasPrice sampleGlobals
      \<and> dGasTipCap (inner tx) = gasTipPrice sampleGlobals"
    by blast
  have ty: "txType (inner sampleDynamicFeeTx) = DynamicFeeTxType"
    by (simp add: sampleDynamicFeeTx_def)
  from inst [THEN conjunct2, rule_format, OF sample_built_DynamicFee, THEN conjunct1, rule_format, OF ty]
  have fields: "dGasFeeCap (inner sampleDynamicFeeTx) = 30000000000
     \<and> dGasTipCap (inner sampleDynamicFeeTx) = 1000000000
     \<and> dGasFeeCap (inner sampleDynamicFeeTx) \<noteq> gasPrice sampleGlobals + gasTipPrice sampleGlobals"
    by (simp add: sampleGlobals_def)
  from built ty fields show ?thesis by (intro conjI) blast+
qed

subsection \<open>The big contract\<close>

text \<open>The computed length as a natural number.\<close>

lemma unat_contractLength:
  "unat (contractLength gasLimit) =
     (if unat gasLimit > 53000 then
        (let cl = (unat gasLimit - 53000) div 200 in if cl \<ge> 1 then cl - 1 else cl)
      else 0)"
proof (cases "gasLimit > 21000 + 32000")
  case False
  then have "\<not> unat gasLimit > 53000" by (simp add: word_less_nat_alt)
  with False show ?thesis by (simp add: contractLength_def)
next
  case True
  then have g: "unat gasLimit > 53000" by (simp add: word_less_nat_alt)
  then have "53000 \<le> gasLimit" by (simp add: word_le_nat_alt)
  then have "unat (gasLimit - 53000) = unat gasLimit - 53000"
    by (simp add: unat_sub)
  then have u3: "unat ((gasLimit - 53000) div 200) = (unat gasLimit - 53000) div 200"
    by (simp add: unat_div)
  show ?thesis
  proof (cases "(gasLimit - 53000) div 200 \<ge> 1")
    case c: True
    then have "unat ((gasLimit - 53000) div 200 - 1) = (unat gasLimit - 53000) div 200 - 1"
      using u3 by (simp add: unat_sub)
    moreover from c u3 have "(unat gasLimit - 53000) div 200 \<ge> 1" by (simp add: word_le_nat_alt)
    ultimately show ?thesis using True g c by (simp add: contractLength_def Let_def)
  next
    case c: False
    with u3 have "\<not> (unat gasLimit - 53000) div 200 \<ge> 1" by (simp add: word_le_nat_alt)
    then show ?thesis using True g c u3 by (simp add: contractLength_def Let_def)
  qed
qed

lemma contractLength_below:
  assumes "gasLimit > 53000"
  shows "21000 + 32000 + 200 * unat (contractLength gasLimit) < unat gasLimit"
proof -
  from assms have g: "unat gasLimit > 53000" by (simp add: word_less_nat_alt)
  define q where "q = (unat gasLimit - 53000) div 200"
  have "200 * q \<le> unat gasLimit - 53000" unfolding q_def by simp
  then show ?thesis using g unfolding unat_contractLength q_def [symmetric] Let_def
    by (cases "q \<ge> 1") auto
qed

lemma contractLength_small:
  assumes "gasLimit \<le> 53000"
  shows "contractLength gasLimit = 0"
proof -
  from assms have "\<not> gasLimit > 21000 + 32000" by simp
  then show ?thesis unfolding contractLength_def by (rule if_not_P)
qed

lemma contractLength_multiple:
  assumes "21000 + 32000 + 200 * k < (2::nat) ^ 64"
  shows "unat (contractLength (of_nat (21000 + 32000 + 200 * k))) = (if k \<ge> 1 then k - 1 else 0)"
proof -
  have "unat (of_nat (21000 + 32000 + 200 * k) :: uint64) = 21000 + 32000 + 200 * k"
    using assms by (simp add: unat_of_nat del: of_nat_add of_nat_mult of_nat_numeral)
  then show ?thesis unfolding unat_contractLength by (simp add: Let_def)
qed

text \<open>
  C3, as the claim states it, fails: for a gas limit of 53000 (the claim's own case
  \<open>k = 0\<close>) the computed length is 0 and the estimated cost 21000 + 32000 + 200 * 0 is
  not below the gas limit.
\<close>

theorem estimate_reaches_small_gasLimit:
  "contractLength 53000 = 0
   \<and> \<not> (21000 + 32000 + 200 * unat (contractLength 53000) < unat (53000 :: uint64))"
  by (simp add: contractLength_def)

text \<open>
  C3 (amended): for every gas limit above 21000 + 32000 the computed body length
  satisfies 21000 + 32000 + 200 * length < gasLimit; for every gas limit up to
  21000 + 32000 the computed length is 0; for a gas limit 21000 + 32000 + 200 * k that
  fits 64 bits the computed length is \<open>k - 1\<close> when \<open>k \<ge> 1\<close> and 0 when \<open>k < 1\<close>; and the
  transaction that \<^verbatim>\<open>makeNextBigContractTransaction\<close> returns is a contract creation
  with that gas limit whose payload is PUSH8, the length as 8 big-endian bytes,
  CODESIZE, RETURN.
\<close>

theorem contractLength_under_gasLimit:
  "(53000 < gasLimit \<longrightarrow> 21000 + 32000 + 200 * unat (contractLength gasLimit) < unat gasLimit)
   \<and> (gasLimit \<le> 53000 \<longrightarrow> contractLength gasLimit = 0)
   \<and> (\<forall>k. 21000 + 32000 + 200 * k < (2::nat) ^ 64 \<longrightarrow>
         unat (contractLength (of_nat (21000 + 32000 + 200 * k))) = (if k \<ge> 1 then k - 1 else 0))
   \<and> (\<forall>tx t'. makeNextBigContractTransaction G sg t gasLimit = (Return tx, t') \<longrightarrow>
         txTo (inner tx) = None \<and> txGas (inner tx) = gasLimit \<and> txValue (inner tx) = big0 G
         \<and> txData (inner tx) = [0x67] @ PutUint64 (contractLength gasLimit) @ [0x38, 0xF3])"
proof -
  have a: "53000 < gasLimit \<longrightarrow> 21000 + 32000 + 200 * unat (contractLength gasLimit) < unat gasLimit"
    using contractLength_below by blast
  have b: "gasLimit \<le> 53000 \<longrightarrow> contractLength gasLimit = 0"
    using contractLength_small by blast
  have c: "\<forall>k. 21000 + 32000 + 200 * k < (2::nat) ^ 64 \<longrightarrow>
         unat (contractLength (of_nat (21000 + 32000 + 200 * k))) = (if k \<ge> 1 then k - 1 else 0)"
    using contractLength_multiple by blast
  have d: "\<forall>tx t'. makeNextBigContractTransaction G sg t gasLimit = (Return tx, t') \<longrightarrow>
         txTo (inner tx) = None \<and> txGas (inner tx) = gasLimit \<and> txValue (inner tx) = big0 G
         \<and> txData (inner tx) = [0x67] @ PutUint64 (contractLength gasLimit) @ [0x38, 0xF3]"
  proof (intro allI impI)
    fix tx t'
    assume "makeNextBigContractTransaction G sg t gasLimit = (Return tx, t')"
    then have "makeNextTransaction G sg t None gasLimit (big0 G) (initCode gasLimit) = (Return tx, t')"
      by (simp add: makeNextBigContractTransaction_def)
    from makeNextTransaction_Return [OF this] obtain n where
      "newTxData G t None gasLimit (big0 G) (initCode gasLimit) = Some (inner tx, n)" by blast
    from newTxData_shape [OF this]
    have "inner tx = LegacyTx (nonce t) None (big0 G) gasLimit (gasPrice G) (initCode gasLimit)
        \<or> inner tx = DynamicFeeTx (nonce t) gasLimit (gasTipPrice G) (gasPrice G) None (big0 G) (initCode gasLimit)" .
    then show "txTo (inner tx) = None \<and> txGas (inner tx) = gasLimit \<and> txValue (inner tx) = big0 G
         \<and> txData (inner tx) = [0x67] @ PutUint64 (contractLength gasLimit) @ [0x38, 0xF3]"
      by (auto simp: initCode_def)
  qed
  from a b c d show ?thesis by (intro conjI)
qed

theorem contractLength_under_gasLimit_witness:
  "(53000 :: uint64) < 60000
   \<and> 21000 + 32000 + 200 * unat (contractLength 60000) < unat (60000 :: uint64)
   \<and> unat (contractLength 60000) = 34
   \<and> 21000 + 32000 + 200 * 35 < (2::nat) ^ 64
   \<and> (53000 :: uint64) \<le> 53000 \<and> contractLength 53000 = 0"
proof -
  have a: "(53000 :: uint64) < 60000" and b: "(53000 :: uint64) \<le> 53000"
    and c: "21000 + 32000 + 200 * 35 < (2::nat) ^ 64" by simp_all
  note inst = contractLength_under_gasLimit [where G = sampleGlobals and sg = acceptingSigner
      and t = "sampleEnv 4 LegacyTxOnly"]
  from inst [of 60000, THEN conjunct1, rule_format, OF a]
    inst [of 53000, THEN conjunct2, THEN conjunct1, rule_format, OF b]
    inst [of 60000, THEN conjunct2, THEN conjunct2, THEN conjunct1, rule_format, OF c]
  show ?thesis by simp
qed

section \<open>Properties of the retrying submitter\<close>

subsection \<open>The loop\<close>

text \<open>While attempts fail and the deadline does not fire within the backoff, the loop goes on.\<close>

lemma sendLoop_retries:
  assumes "\<forall>j<k. sendErr w (i + j) tx \<noteq> None \<and> \<not> timeoutWithin w (i + j) Second"
  shows "sendLoop w t tx i = sendLoop w t tx (i + k)"
  using assms
proof (induction k arbitrary: i)
  case 0
  then show ?case by simp
next
  case (Suc k)
  from Suc.prems have here: "sendErr w i tx \<noteq> None" "\<not> timeoutWithin w i Second"
    by (metis add.right_neutral zero_less_Suc)+
  from Suc.prems have "\<forall>j<k. sendErr w (Suc i + j) tx \<noteq> None \<and> \<not> timeoutWithin w (Suc i + j) Second"
    by (metis Suc_less_eq add_Suc_shift)
  from Suc.IH [OF this] have "sendLoop w t tx (Suc i) = sendLoop w t tx (i + Suc k)" by simp
  moreover from here have "sendLoop w t tx i = sendLoop w t tx (Suc i)"
    by (subst sendLoop.simps) auto
  ultimately show ?case by simp
qed

lemma sendLoop_first_success:
  assumes "\<forall>j<n. sendErr w j tx \<noteq> None \<and> \<not> timeoutWithin w j Second"
    and "sendErr w n tx = None"
  shows "sendLoop w t tx 0 = Some (Return tx, Suc n, t)"
proof -
  from assms(1) have "sendLoop w t tx 0 = sendLoop w t tx (0 + n)"
    by (intro sendLoop_retries) simp
  also have "\<dots> = Some (Return tx, Suc n, t)"
    using assms(2) by (subst sendLoop.simps) simp
  finally show ?thesis .
qed


text \<open>
  Every result of the loop comes from a last attempt \<open>n\<close>: the attempts before it failed
  and were followed by a full backoff, and attempt \<open>n\<close> was accepted, or it failed and
  the deadline fired within the backoff.
\<close>

lemma sendLoop_Some:
  assumes "sendLoop w t tx i = Some r"
  shows "\<exists>n\<ge>i. (\<forall>j. i \<le> j \<and> j < n \<longrightarrow> sendErr w j tx \<noteq> None \<and> \<not> timeoutWithin w j Second)
           \<and> (case sendErr w n tx of
                 None \<Rightarrow> r = (Return tx, Suc n, t)
               | Some err \<Rightarrow> timeoutWithin w n Second
                    \<and> r = (FailNow, Suc n, Fatalf t (SendTimeout (TestName t) err)))"
  using assms
proof (induction w t tx i r rule: sendLoop.raw_induct [rotated 1, consumes 1])
  case (1 loop w t tx i r)
  show ?case
  proof (cases "sendErr w i tx")
    case None
    with 1(2) have "r = (Return tx, Suc i, t)" by simp
    with None show ?thesis by (intro exI [of _ i]) auto
  next
    case (Some err)
    show ?thesis
    proof (cases "timeoutWithin w i Second")
      case True
      with Some 1(2) have "r = (FailNow, Suc i, Fatalf t (SendTimeout (TestName t) err))" by simp
      with Some True show ?thesis by (intro exI [of _ i]) auto
    next
      case False
      with Some 1(2) have "loop w t tx (Suc i) = Some r" by simp
      from 1(1) [OF this] obtain n where n: "n \<ge> Suc i"
        "\<forall>j. Suc i \<le> j \<and> j < n \<longrightarrow> sendErr w j tx \<noteq> None \<and> \<not> timeoutWithin w j Second"
        "(case sendErr w n tx of
            None \<Rightarrow> r = (Return tx, Suc n, t)
          | Some err \<Rightarrow> timeoutWithin w n Second
               \<and> r = (FailNow, Suc n, Fatalf t (SendTimeout (TestName t) err)))"
        by blast
      have "\<forall>j. i \<le> j \<and> j < n \<longrightarrow> sendErr w j tx \<noteq> None \<and> \<not> timeoutWithin w j Second"
      proof (intro allI impI)
        fix j assume j: "i \<le> j \<and> j < n"
        show "sendErr w j tx \<noteq> None \<and> \<not> timeoutWithin w j Second"
        proof (cases "j = i")
          case True
          with Some False show ?thesis by simp
        next
          case False
          with j n(2) show ?thesis by (simp add: Suc_leI le_neq_implies_less)
        qed
      qed
      with n(1,3) show ?thesis by (intro exI [of _ n]) auto
    qed
  qed
qed

text \<open>With a node that never accepts and a deadline that never fires the loop never ends.\<close>

lemma sendLoop_forever:
  assumes "\<forall>j. sendErr w j tx \<noteq> None \<and> \<not> timeoutWithin w j Second"
  shows "sendLoop w t tx 0 = None"
proof (cases "sendLoop w t tx 0")
  case None
  then show ?thesis .
next
  case (Some r)
  from sendLoop_Some [OF Some] obtain n where
    "case sendErr w n tx of
       None \<Rightarrow> r = (Return tx, Suc n, t)
     | Some err \<Rightarrow> timeoutWithin w n Second
          \<and> r = (FailNow, Suc n, Fatalf t (SendTimeout (TestName t) err))"
    by blast
  moreover from assms have "sendErr w n tx \<noteq> None" "\<not> timeoutWithin w n Second" by simp_all
  ultimately show ?thesis by (cases "sendErr w n tx") simp_all
qed

subsection \<open>sendNextTransaction\<close>




subsection \<open>The gas limit\<close>

lemma builtTxs_append: "builtTxs (xs @ ys) = builtTxs xs @ builtTxs ys"
  by (induction xs rule: builtTxs.induct) simp_all

text \<open>When the call ends, what it returns and what it has logged as built has the gas limit 75000.\<close>

lemma sendNextTransaction_ended_gas:
  assumes "sendNextTransaction G sg w t recipient amount payload = Some (out, n, t')"
  shows "(\<forall>tx. out = Return tx \<longrightarrow> txGas (inner tx) = 75000)
       \<and> (\<exists>new. builtTxs (logs t') = builtTxs (logs t) @ new
              \<and> (\<forall>tx\<in>set new. txGas (inner tx) = 75000))"
proof (cases "makeNextTransaction G sg t (Some recipient) 75000 amount payload")
  case (Pair mk t1)
  show ?thesis
  proof (cases mk)
    case (Return tx)
    from makeNextTransaction_Return [OF Pair [unfolded Return]]
    obtain d nm where d: "newTxData G t (Some recipient) 75000 amount payload = Some (d, nm)"
      "inner tx = d"
      and t1: "t1 = (Logf t (BuiltNextTransaction (TestName t) tx (nonce t) (Some recipient) nm))
                      \<lparr>nonce := nonce t + 1\<rparr>"
      by blast
    from newTxData_gas [OF d(1)] d(2) have gas: "txGas (inner tx) = 75000" by simp
    from t1 have logs1: "builtTxs (logs t1) = builtTxs (logs t) @ [tx]"
      by (simp add: Logf_def builtTxs_append)
    from assms Pair Return have "sendLoop w t1 tx 0 = Some (out, n, t')"
      by (simp add: sendNextTransaction_def)
    from sendLoop_Some [OF this] obtain m where
      "case sendErr w m tx of
         None \<Rightarrow> (out, n, t') = (Return tx, Suc m, t1)
       | Some err \<Rightarrow> timeoutWithin w m Second
            \<and> (out, n, t') = (FailNow, Suc m, Fatalf t1 (SendTimeout (TestName t1) err))"
      by blast
    then have "(out = Return tx \<or> out = FailNow) \<and> builtTxs (logs t') = builtTxs (logs t1)"
      by (cases "sendErr w m tx") (auto simp: Fatalf_def builtTxs_append)
    with gas logs1 show ?thesis by auto
  next
    case FailNow
    with assms Pair have out: "out = FailNow" "t' = t1" by (simp_all add: sendNextTransaction_def)
    from Pair FailNow have "builtTxs (logs t1) = builtTxs (logs t)"
      by (auto simp: makeNextTransaction_def Fatalf_def builtTxs_append
          split: option.splits sum.splits prod.splits)
    with out show ?thesis by simp
  next
    case Panic
    with makeNextTransaction_not_Panic [of G sg t "Some recipient" 75000 amount payload t1] Pair
    show ?thesis by simp
  qed
qed

lemma sample_sent_flaky:
  "sendNextTransaction sampleGlobals acceptingSigner flakyWorld (sampleEnv 4 LegacyTxOnly) 0xaa 1 []
     = Some (Return sampleLegacyTx, 3, sampleEnvAfter LegacyTxOnly)"
proof -
  have "(\<forall>j<2. sendErr flakyWorld j tx \<noteq> None \<and> \<not> timeoutWithin flakyWorld j Second)"
    and "sendErr flakyWorld 2 tx = None" for tx
    by (simp_all add: flakyWorld_def)
  then have "sendLoop flakyWorld t tx 0 = Some (Return tx, Suc 2, t)" for t tx
    by (rule sendLoop_first_success)
  then show ?thesis by (simp add: sendNextTransaction_def sample_built_LegacyTxOnly)
qed

text \<open>
  C9: whatever the caller passes, \<^verbatim>\<open>sendNextTransaction\<close> has the builder fill in
  transaction data with the gas limit 75000. When signing succeeds, the builder returns
  a transaction with this gas limit, logs it as built, and the loop submits this very
  transaction, whether or not the loop ever ends; when signing fails, the call ends the
  test without building or submitting anything. So however the call ends, the transaction
  that it returns has the gas limit 75000, and so has every transaction that the call
  reports as built in the log.
\<close>

theorem sendNextTransaction_gas_limit:
  "(\<exists>d nm. newTxData G t (Some recipient) 75000 amount payload = Some (d, nm) \<and> txGas d = 75000
      \<and> (case sg (NewLondonSigner (chainID G)) d vaultKey of
            Inr sigbytes \<Rightarrow>
              (\<exists>tx t1. makeNextTransaction G sg t (Some recipient) 75000 amount payload = (Return tx, t1)
                 \<and> inner tx = d \<and> txGas (inner tx) = 75000
                 \<and> builtTxs (logs t1) = builtTxs (logs t) @ [tx]
                 \<and> sendNextTransaction G sg w t recipient amount payload = sendLoop w t1 tx 0)
          | Inl err \<Rightarrow>
              sendNextTransaction G sg w t recipient amount payload
                = Some (FailNow, 0, Fatalf t (CouldNotSign (TestName t) err))))
   \<and> (\<forall>out n t'. sendNextTransaction G sg w t recipient amount payload = Some (out, n, t') \<longrightarrow>
         (\<forall>tx. out = Return tx \<longrightarrow> txGas (inner tx) = 75000)
         \<and> (\<exists>new. builtTxs (logs t') = builtTxs (logs t) @ new
                \<and> (\<forall>tx\<in>set new. txGas (inner tx) = 75000)))"
proof -
  obtain d nm where d: "newTxData G t (Some recipient) 75000 amount payload = Some (d, nm)"
    using newTxData_Some by blast
  note gas = newTxData_gas [OF d]
  have by_signer: "case sg (NewLondonSigner (chainID G)) d vaultKey of
            Inr sigbytes \<Rightarrow>
              (\<exists>tx t1. makeNextTransaction G sg t (Some recipient) 75000 amount payload = (Return tx, t1)
                 \<and> inner tx = d \<and> txGas (inner tx) = 75000
                 \<and> builtTxs (logs t1) = builtTxs (logs t) @ [tx]
                 \<and> sendNextTransaction G sg w t recipient amount payload = sendLoop w t1 tx 0)
          | Inl err \<Rightarrow>
              sendNextTransaction G sg w t recipient amount payload
                = Some (FailNow, 0, Fatalf t (CouldNotSign (TestName t) err))"
  proof (cases "sg (NewLondonSigner (chainID G)) d vaultKey")
    case (Inl err)
    from makeNextTransaction_not_signed [where sg = sg, OF d Inl] Inl show ?thesis
      by (simp add: sendNextTransaction_def)
  next
    case (Inr sigbytes)
    from makeNextTransaction_signed [where sg = sg, OF d Inr] Inr gas show ?thesis
      by (simp add: sendNextTransaction_def Logf_def builtTxs_append)
  qed
  have ended: "\<forall>out n t'. sendNextTransaction G sg w t recipient amount payload = Some (out, n, t') \<longrightarrow>
         (\<forall>tx. out = Return tx \<longrightarrow> txGas (inner tx) = 75000)
         \<and> (\<exists>new. builtTxs (logs t') = builtTxs (logs t) @ new
                \<and> (\<forall>tx\<in>set new. txGas (inner tx) = 75000))"
    using sendNextTransaction_ended_gas by blast
  from d gas by_signer ended show ?thesis by blast
qed

theorem sendNextTransaction_gas_limit_witness:
  "txGas (inner sampleLegacyTx) = 75000
   \<and> (\<exists>new. builtTxs (logs (sampleEnvAfter LegacyTxOnly)) = builtTxs (logs (sampleEnv 4 LegacyTxOnly)) @ new
          \<and> (\<forall>tx\<in>set new. txGas (inner tx) = 75000))
   \<and> (\<exists>tx t1. makeNextTransaction sampleGlobals acceptingSigner (sampleEnv 4 LegacyTxOnly)
                  (Some 0xaa) 75000 1 [] = (Return tx, t1)
          \<and> txGas (inner tx) = 75000
          \<and> sendNextTransaction sampleGlobals acceptingSigner silentWorld (sampleEnv 4 LegacyTxOnly)
               0xaa 1 [] = sendLoop silentWorld t1 tx 0)
   \<and> sendNextTransaction sampleGlobals acceptingSigner silentWorld (sampleEnv 4 LegacyTxOnly)
        0xaa 1 [] = None"
proof -
  note ended = sendNextTransaction_gas_limit [where G = sampleGlobals and sg = acceptingSigner
      and w = flakyWorld and t = "sampleEnv 4 LegacyTxOnly" and recipient = "0xaa" and amount = 1
      and payload = "[]", THEN conjunct2, rule_format, OF sample_sent_flaky]
  note silent = sendNextTransaction_gas_limit [where G = sampleGlobals and sg = acceptingSigner
      and w = silentWorld and t = "sampleEnv 4 LegacyTxOnly" and recipient = "0xaa" and amount = 1
      and payload = "[]", THEN conjunct1, unfolded sample_newTxData]
  have ok: "acceptingSigner (NewLondonSigner (chainID sampleGlobals))
              (LegacyTx 4 (Some 0xaa) 1 75000 30000000000 []) vaultKey = Inr [0x1b]"
    by (simp add: acceptingSigner_def)
  from ended have one: "txGas (inner sampleLegacyTx) = 75000" by simp
  from ended have two: "\<exists>new. builtTxs (logs (sampleEnvAfter LegacyTxOnly))
          = builtTxs (logs (sampleEnv 4 LegacyTxOnly)) @ new
          \<and> (\<forall>tx\<in>set new. txGas (inner tx) = 75000)" by simp
  from silent ok have three: "\<exists>tx t1. makeNextTransaction sampleGlobals acceptingSigner
                  (sampleEnv 4 LegacyTxOnly) (Some 0xaa) 75000 1 [] = (Return tx, t1)
          \<and> txGas (inner tx) = 75000
          \<and> sendNextTransaction sampleGlobals acceptingSigner silentWorld (sampleEnv 4 LegacyTxOnly)
               0xaa 1 [] = sendLoop silentWorld t1 tx 0"
    by auto
  have "\<forall>j. sendErr silentWorld j tx \<noteq> None \<and> \<not> timeoutWithin silentWorld j Second" for tx
    by (simp add: silentWorld_def)
  from sendLoop_forever [OF this]
  have four: "sendNextTransaction sampleGlobals acceptingSigner silentWorld (sampleEnv 4 LegacyTxOnly)
        0xaa 1 [] = None"
    by (simp add: sendNextTransaction_def sample_built_LegacyTxOnly)
  from one two three four show ?thesis by (intro conjI)
qed

section \<open>Properties of the liveness check\<close>

subsection \<open>The loop for one port\<close>

text \<open>While the ticker is selected and the dial fails, the loop goes on and records the dial.\<close>

lemma portcheckloop_retries:
  assumes "\<forall>j<k. selected w (n + j) = Tick \<and> \<not> dialOk w (n + j) ip p"
  shows "portcheckloop w ip p n evs
           = portcheckloop w ip p (n + k) (evs @ replicate k (Dial ip p False))"
  using assms
proof (induction k arbitrary: n evs)
  case 0
  then show ?case by simp
next
  case (Suc k)
  from Suc.prems have here: "selected w n = Tick" "\<not> dialOk w n ip p"
    by (metis add.right_neutral zero_less_Suc)+
  from Suc.prems have "\<forall>j<k. selected w (Suc n + j) = Tick \<and> \<not> dialOk w (Suc n + j) ip p"
    by (metis Suc_less_eq add_Suc_shift)
  from Suc.IH [OF this, of "evs @ [Dial ip p False]"]
  have "portcheckloop w ip p (Suc n) (evs @ [Dial ip p False])
          = portcheckloop w ip p (n + Suc k) (evs @ replicate (Suc k) (Dial ip p False))"
    by (simp add: replicate_append_same)
  moreover from here
  have "portcheckloop w ip p n evs = portcheckloop w ip p (Suc n) (evs @ [Dial ip p False])"
    by (subst portcheckloop.simps) simp
  ultimately show ?case by simp
qed

lemma portcheckloop_opens:
  assumes "\<forall>j<k. selected w (n + j) = Tick \<and> \<not> dialOk w (n + j) ip p"
    and "selected w (n + k) = Tick" and "dialOk w (n + k) ip p"
  shows "portcheckloop w ip p n evs
           = Some (None, Suc (n + k),
                   evs @ replicate k (Dial ip p False) @ [Dial ip p True, ConnClose ip p])"
  unfolding portcheckloop_retries [OF assms(1)]
  using assms(2,3) by (subst portcheckloop.simps) simp

lemma portcheckloop_done:
  assumes "\<forall>j<k. selected w (n + j) = Tick \<and> \<not> dialOk w (n + j) ip p"
    and "selected w (n + k) = CtxDone"
  shows "portcheckloop w ip p n evs
           = Some (Some DeadlineExceeded, Suc (n + k), evs @ replicate k (Dial ip p False))"
  unfolding portcheckloop_retries [OF assms(1)]
  using assms(2) by (subst portcheckloop.simps) simp

text \<open>Every result of the loop comes about in one of these two ways.\<close>

lemma portcheckloop_Some:
  assumes "portcheckloop w ip p n evs = Some r"
  shows "\<exists>k. (\<forall>j<k. selected w (n + j) = Tick \<and> \<not> dialOk w (n + j) ip p)
           \<and> (selected w (n + k) = Tick \<and> dialOk w (n + k) ip p
                \<and> r = (None, Suc (n + k),
                        evs @ replicate k (Dial ip p False) @ [Dial ip p True, ConnClose ip p])
              \<or> selected w (n + k) = CtxDone
                \<and> r = (Some DeadlineExceeded, Suc (n + k), evs @ replicate k (Dial ip p False)))"
  using assms
proof (induction w ip p n evs r rule: portcheckloop.raw_induct [rotated 1, consumes 1])
  case (1 loop w ip p n evs r)
  show ?case
  proof (cases "selected w n")
    case CtxDone
    with 1(2) have "r = (Some DeadlineExceeded, Suc n, evs)" by simp
    with CtxDone show ?thesis by (intro exI [of _ 0]) simp
  next
    case Tick
    show ?thesis
    proof (cases "dialOk w n ip p")
      case True
      with Tick 1(2) have "r = (None, Suc n, evs @ [Dial ip p True, ConnClose ip p])" by simp
      with Tick True show ?thesis by (intro exI [of _ 0]) simp
    next
      case False
      with Tick 1(2) have "loop w ip p (Suc n) (evs @ [Dial ip p False]) = Some r" by simp
      from 1(1) [OF this] obtain k where
        k: "\<forall>j<k. selected w (Suc n + j) = Tick \<and> \<not> dialOk w (Suc n + j) ip p"
        "selected w (Suc n + k) = Tick \<and> dialOk w (Suc n + k) ip p
           \<and> r = (None, Suc (Suc n + k),
                   (evs @ [Dial ip p False]) @ replicate k (Dial ip p False)
                     @ [Dial ip p True, ConnClose ip p])
         \<or> selected w (Suc n + k) = CtxDone
           \<and> r = (Some DeadlineExceeded, Suc (Suc n + k),
                   (evs @ [Dial ip p False]) @ replicate k (Dial ip p False))"
        by blast
      have "\<forall>j<Suc k. selected w (n + j) = Tick \<and> \<not> dialOk w (n + j) ip p"
      proof (intro allI impI)
        fix j assume "j < Suc k"
        then show "selected w (n + j) = Tick \<and> \<not> dialOk w (n + j) ip p"
          using Tick False k(1) by (cases j) simp_all
      qed
      with k(2) show ?thesis by (intro exI [of _ "Suc k"]) simp
    qed
  qed
qed

text \<open>Once the context is done at some later \<^verbatim>\<open>select\<close>, the loop returns.\<close>

lemma portcheckloop_returns:
  assumes "selected w m = CtxDone" and "n \<le> m"
  shows "portcheckloop w ip p n evs \<noteq> None"
  using assms(2)
proof (induction "m - n" arbitrary: n evs)
  case 0
  with assms(1) have "selected w n = CtxDone" by simp
  then show ?case by (subst portcheckloop.simps) simp
next
  case (Suc d)
  then have "d = m - Suc n" "Suc n \<le> m" by simp_all
  from Suc.hyps(1) [OF this] have "portcheckloop w ip p (Suc n) (evs @ [Dial ip p False]) \<noteq> None" .
  then show ?case by (subst portcheckloop.simps) (simp split: SelectCase.splits)
qed

subsection \<open>CheckEthEngineLive\<close>

lemma CheckEthEngineLive_unfold:
  "CheckEthEngineLive G w ip =
     (case portcheckloop w ip (EthPortHTTP G) 0
             [WithTimeout (Second * 5), NewTicker (100 * Millisecond)] of
        None \<Rightarrow> None
      | Some (Some err, n', evs') \<Rightarrow> Some (Some err, evs' @ [TickerStop, CtxCancel])
      | Some (None, n', evs') \<Rightarrow>
          (case portcheckloop w ip (EnginePortHTTP G) n' evs' of
             None \<Rightarrow> None
           | Some (Some err, n'', evs'') \<Rightarrow> Some (Some err, evs'' @ [TickerStop, CtxCancel])
           | Some (None, n'', evs'') \<Rightarrow> Some (None, evs'' @ [TickerStop, CtxCancel])))"
  by (simp add: CheckEthEngineLive_def split: option.splits prod.splits)

text \<open>The three ways in which the check can end, by what the network and the runtime do.\<close>

lemma CheckEthEngineLive_both_open:
  assumes "\<forall>j<n1. selected w j = Tick \<and> \<not> dialOk w j ip (EthPortHTTP G)"
    and "selected w n1 = Tick" and "dialOk w n1 ip (EthPortHTTP G)"
    and "\<forall>j<n2. selected w (Suc n1 + j) = Tick \<and> \<not> dialOk w (Suc n1 + j) ip (EnginePortHTTP G)"
    and "selected w (Suc n1 + n2) = Tick" and "dialOk w (Suc n1 + n2) ip (EnginePortHTTP G)"
  shows "CheckEthEngineLive G w ip =
           Some (None, [WithTimeout (Second * 5), NewTicker (100 * Millisecond)]
             @ replicate n1 (Dial ip (EthPortHTTP G) False)
             @ [Dial ip (EthPortHTTP G) True, ConnClose ip (EthPortHTTP G)]
             @ replicate n2 (Dial ip (EnginePortHTTP G) False)
             @ [Dial ip (EnginePortHTTP G) True, ConnClose ip (EnginePortHTTP G)]
             @ [TickerStop, CtxCancel])"
proof -
  have one: "portcheckloop w ip (EthPortHTTP G) 0 evs
      = Some (None, Suc n1, evs @ replicate n1 (Dial ip (EthPortHTTP G) False)
                @ [Dial ip (EthPortHTTP G) True, ConnClose ip (EthPortHTTP G)])" for evs
    using portcheckloop_opens [of n1 w 0 ip "EthPortHTTP G" evs] assms(1-3) by simp
  have two: "portcheckloop w ip (EnginePortHTTP G) (Suc n1) evs
      = Some (None, Suc (Suc n1 + n2), evs @ replicate n2 (Dial ip (EnginePortHTTP G) False)
                @ [Dial ip (EnginePortHTTP G) True, ConnClose ip (EnginePortHTTP G)])" for evs
    using portcheckloop_opens [of n2 w "Suc n1" ip "EnginePortHTTP G" evs] assms(4-6) by simp
  show ?thesis unfolding CheckEthEngineLive_unfold one by (simp add: two)
qed

lemma CheckEthEngineLive_second_times_out:
  assumes "\<forall>j<n1. selected w j = Tick \<and> \<not> dialOk w j ip (EthPortHTTP G)"
    and "selected w n1 = Tick" and "dialOk w n1 ip (EthPortHTTP G)"
    and "\<forall>j<n2. selected w (Suc n1 + j) = Tick \<and> \<not> dialOk w (Suc n1 + j) ip (EnginePortHTTP G)"
    and "selected w (Suc n1 + n2) = CtxDone"
  shows "CheckEthEngineLive G w ip =
           Some (Some DeadlineExceeded, [WithTimeout (Second * 5), NewTicker (100 * Millisecond)]
             @ replicate n1 (Dial ip (EthPortHTTP G) False)
             @ [Dial ip (EthPortHTTP G) True, ConnClose ip (EthPortHTTP G)]
             @ replicate n2 (Dial ip (EnginePortHTTP G) False)
             @ [TickerStop, CtxCancel])"
proof -
  have one: "portcheckloop w ip (EthPortHTTP G) 0 evs
      = Some (None, Suc n1, evs @ replicate n1 (Dial ip (EthPortHTTP G) False)
                @ [Dial ip (EthPortHTTP G) True, ConnClose ip (EthPortHTTP G)])" for evs
    using portcheckloop_opens [of n1 w 0 ip "EthPortHTTP G" evs] assms(1-3) by simp
  have two: "portcheckloop w ip (EnginePortHTTP G) (Suc n1) evs
      = Some (Some DeadlineExceeded, Suc (Suc n1 + n2),
              evs @ replicate n2 (Dial ip (EnginePortHTTP G) False))" for evs
    using portcheckloop_done [of n2 w "Suc n1" ip "EnginePortHTTP G" evs] assms(4,5) by simp
  show ?thesis unfolding CheckEthEngineLive_unfold one by (simp add: two)
qed

text \<open>Every result of the check, and that it returns once the context is done.\<close>

lemma CheckEthEngineLive_cases:
  "(\<forall>evs. CheckEthEngineLive G w ip = Some (None, evs) \<longrightarrow>
      (\<exists>n1 n2.
         evs = [WithTimeout (Second * 5), NewTicker (100 * Millisecond)]
             @ replicate n1 (Dial ip (EthPortHTTP G) False)
             @ [Dial ip (EthPortHTTP G) True, ConnClose ip (EthPortHTTP G)]
             @ replicate n2 (Dial ip (EnginePortHTTP G) False)
             @ [Dial ip (EnginePortHTTP G) True, ConnClose ip (EnginePortHTTP G)]
             @ [TickerStop, CtxCancel]
         \<and> (\<forall>j<n1. selected w j = Tick \<and> \<not> dialOk w j ip (EthPortHTTP G))
         \<and> selected w n1 = Tick \<and> dialOk w n1 ip (EthPortHTTP G)
         \<and> (\<forall>j<n2. selected w (Suc n1 + j) = Tick \<and> \<not> dialOk w (Suc n1 + j) ip (EnginePortHTTP G))
         \<and> selected w (Suc n1 + n2) = Tick \<and> dialOk w (Suc n1 + n2) ip (EnginePortHTTP G)))
   \<and> (\<forall>err evs. CheckEthEngineLive G w ip = Some (Some err, evs) \<longrightarrow>
        err = DeadlineExceeded
        \<and> ((\<exists>n1. (\<forall>j<n1. selected w j = Tick \<and> \<not> dialOk w j ip (EthPortHTTP G))
                  \<and> selected w n1 = CtxDone
                  \<and> evs = [WithTimeout (Second * 5), NewTicker (100 * Millisecond)]
                      @ replicate n1 (Dial ip (EthPortHTTP G) False)
                      @ [TickerStop, CtxCancel])
           \<or> (\<exists>n1 n2. (\<forall>j<n1. selected w j = Tick \<and> \<not> dialOk w j ip (EthPortHTTP G))
                  \<and> selected w n1 = Tick \<and> dialOk w n1 ip (EthPortHTTP G)
                  \<and> (\<forall>j<n2. selected w (Suc n1 + j) = Tick
                              \<and> \<not> dialOk w (Suc n1 + j) ip (EnginePortHTTP G))
                  \<and> selected w (Suc n1 + n2) = CtxDone
                  \<and> evs = [WithTimeout (Second * 5), NewTicker (100 * Millisecond)]
                      @ replicate n1 (Dial ip (EthPortHTTP G) False)
                      @ [Dial ip (EthPortHTTP G) True, ConnClose ip (EthPortHTTP G)]
                      @ replicate n2 (Dial ip (EnginePortHTTP G) False)
                      @ [TickerStop, CtxCancel])))
   \<and> ((\<exists>m. selected w m = CtxDone) \<longrightarrow> CheckEthEngineLive G w ip \<noteq> None)"
proof (intro conjI allI impI)
  fix evs
  assume res: "CheckEthEngineLive G w ip = Some (None, evs)"
  then obtain r1 where r1: "portcheckloop w ip (EthPortHTTP G) 0
      [WithTimeout (Second * 5), NewTicker (100 * Millisecond)] = Some r1"
    unfolding CheckEthEngineLive_unfold by (auto split: option.splits)
  from portcheckloop_Some [OF r1] obtain n1 where
    n1: "\<forall>j<n1. selected w (0 + j) = Tick \<and> \<not> dialOk w (0 + j) ip (EthPortHTTP G)"
    and c1: "selected w (0 + n1) = Tick \<and> dialOk w (0 + n1) ip (EthPortHTTP G)
           \<and> r1 = (None, Suc (0 + n1),
                   [WithTimeout (Second * 5), NewTicker (100 * Millisecond)]
                   @ replicate n1 (Dial ip (EthPortHTTP G) False)
                   @ [Dial ip (EthPortHTTP G) True, ConnClose ip (EthPortHTTP G)])
         \<or> selected w (0 + n1) = CtxDone
           \<and> r1 = (Some DeadlineExceeded, Suc (0 + n1),
                   [WithTimeout (Second * 5), NewTicker (100 * Millisecond)]
                   @ replicate n1 (Dial ip (EthPortHTTP G) False))"
    by blast
  from c1 res r1 have ok1: "selected w n1 = Tick" "dialOk w n1 ip (EthPortHTTP G)"
    and r1': "r1 = (None, Suc n1,
                   [WithTimeout (Second * 5), NewTicker (100 * Millisecond)]
                   @ replicate n1 (Dial ip (EthPortHTTP G) False)
                   @ [Dial ip (EthPortHTTP G) True, ConnClose ip (EthPortHTTP G)])"
    unfolding CheckEthEngineLive_unfold by auto
  from res r1 r1' obtain r2 where r2: "portcheckloop w ip (EnginePortHTTP G) (Suc n1)
      ([WithTimeout (Second * 5), NewTicker (100 * Millisecond)]
         @ replicate n1 (Dial ip (EthPortHTTP G) False)
         @ [Dial ip (EthPortHTTP G) True, ConnClose ip (EthPortHTTP G)]) = Some r2"
    unfolding CheckEthEngineLive_unfold by (auto split: option.splits)
  from portcheckloop_Some [OF r2] obtain n2 where
    n2: "\<forall>j<n2. selected w (Suc n1 + j) = Tick \<and> \<not> dialOk w (Suc n1 + j) ip (EnginePortHTTP G)"
    and c2: "selected w (Suc n1 + n2) = Tick \<and> dialOk w (Suc n1 + n2) ip (EnginePortHTTP G)
           \<and> r2 = (None, Suc (Suc n1 + n2),
                   ([WithTimeout (Second * 5), NewTicker (100 * Millisecond)]
                     @ replicate n1 (Dial ip (EthPortHTTP G) False)
                     @ [Dial ip (EthPortHTTP G) True, ConnClose ip (EthPortHTTP G)])
                   @ replicate n2 (Dial ip (EnginePortHTTP G) False)
                   @ [Dial ip (EnginePortHTTP G) True, ConnClose ip (EnginePortHTTP G)])
         \<or> selected w (Suc n1 + n2) = CtxDone
           \<and> r2 = (Some DeadlineExceeded, Suc (Suc n1 + n2),
                   ([WithTimeout (Second * 5), NewTicker (100 * Millisecond)]
                     @ replicate n1 (Dial ip (EthPortHTTP G) False)
                     @ [Dial ip (EthPortHTTP G) True, ConnClose ip (EthPortHTTP G)])
                   @ replicate n2 (Dial ip (EnginePortHTTP G) False))"
    by blast
  from c2 res r1 r1' r2 have ok2: "selected w (Suc n1 + n2) = Tick"
      "dialOk w (Suc n1 + n2) ip (EnginePortHTTP G)"
    and evs: "evs = [WithTimeout (Second * 5), NewTicker (100 * Millisecond)]
             @ replicate n1 (Dial ip (EthPortHTTP G) False)
             @ [Dial ip (EthPortHTTP G) True, ConnClose ip (EthPortHTTP G)]
             @ replicate n2 (Dial ip (EnginePortHTTP G) False)
             @ [Dial ip (EnginePortHTTP G) True, ConnClose ip (EnginePortHTTP G)]
             @ [TickerStop, CtxCancel]"
    unfolding CheckEthEngineLive_unfold by auto
  from n1 ok1 n2 ok2 evs
  show "\<exists>n1 n2.
         evs = [WithTimeout (Second * 5), NewTicker (100 * Millisecond)]
             @ replicate n1 (Dial ip (EthPortHTTP G) False)
             @ [Dial ip (EthPortHTTP G) True, ConnClose ip (EthPortHTTP G)]
             @ replicate n2 (Dial ip (EnginePortHTTP G) False)
             @ [Dial ip (EnginePortHTTP G) True, ConnClose ip (EnginePortHTTP G)]
             @ [TickerStop, CtxCancel]
         \<and> (\<forall>j<n1. selected w j = Tick \<and> \<not> dialOk w j ip (EthPortHTTP G))
         \<and> selected w n1 = Tick \<and> dialOk w n1 ip (EthPortHTTP G)
         \<and> (\<forall>j<n2. selected w (Suc n1 + j) = Tick \<and> \<not> dialOk w (Suc n1 + j) ip (EnginePortHTTP G))
         \<and> selected w (Suc n1 + n2) = Tick \<and> dialOk w (Suc n1 + n2) ip (EnginePortHTTP G)"
    by (intro exI [of _ n1] exI [of _ n2]) simp
next
  fix err evs
  assume res: "CheckEthEngineLive G w ip = Some (Some err, evs)"
  show "err = DeadlineExceeded" by (cases err) simp
  from res obtain r1 where r1: "portcheckloop w ip (EthPortHTTP G) 0
      [WithTimeout (Second * 5), NewTicker (100 * Millisecond)] = Some r1"
    unfolding CheckEthEngineLive_unfold by (auto split: option.splits)
  from portcheckloop_Some [OF r1] obtain n1 where
    n1: "\<forall>j<n1. selected w (0 + j) = Tick \<and> \<not> dialOk w (0 + j) ip (EthPortHTTP G)"
    and c1: "selected w (0 + n1) = Tick \<and> dialOk w (0 + n1) ip (EthPortHTTP G)
           \<and> r1 = (None, Suc (0 + n1),
                   [WithTimeout (Second * 5), NewTicker (100 * Millisecond)]
                   @ replicate n1 (Dial ip (EthPortHTTP G) False)
                   @ [Dial ip (EthPortHTTP G) True, ConnClose ip (EthPortHTTP G)])
         \<or> selected w (0 + n1) = CtxDone
           \<and> r1 = (Some DeadlineExceeded, Suc (0 + n1),
                   [WithTimeout (Second * 5), NewTicker (100 * Millisecond)]
                   @ replicate n1 (Dial ip (EthPortHTTP G) False))"
    by blast
  show "(\<exists>n1. (\<forall>j<n1. selected w j = Tick \<and> \<not> dialOk w j ip (EthPortHTTP G))
                  \<and> selected w n1 = CtxDone
                  \<and> evs = [WithTimeout (Second * 5), NewTicker (100 * Millisecond)]
                      @ replicate n1 (Dial ip (EthPortHTTP G) False)
                      @ [TickerStop, CtxCancel])
           \<or> (\<exists>n1 n2. (\<forall>j<n1. selected w j = Tick \<and> \<not> dialOk w j ip (EthPortHTTP G))
                  \<and> selected w n1 = Tick \<and> dialOk w n1 ip (EthPortHTTP G)
                  \<and> (\<forall>j<n2. selected w (Suc n1 + j) = Tick
                              \<and> \<not> dialOk w (Suc n1 + j) ip (EnginePortHTTP G))
                  \<and> selected w (Suc n1 + n2) = CtxDone
                  \<and> evs = [WithTimeout (Second * 5), NewTicker (100 * Millisecond)]
                      @ replicate n1 (Dial ip (EthPortHTTP G) False)
                      @ [Dial ip (EthPortHTTP G) True, ConnClose ip (EthPortHTTP G)]
                      @ replicate n2 (Dial ip (EnginePortHTTP G) False)
                      @ [TickerStop, CtxCancel])"
  proof (cases "selected w n1")
    case CtxDone
    with c1 have "r1 = (Some DeadlineExceeded, Suc n1,
                   [WithTimeout (Second * 5), NewTicker (100 * Millisecond)]
                   @ replicate n1 (Dial ip (EthPortHTTP G) False))" by simp
    with res r1 have "evs = [WithTimeout (Second * 5), NewTicker (100 * Millisecond)]
                      @ replicate n1 (Dial ip (EthPortHTTP G) False)
                      @ [TickerStop, CtxCancel]"
      unfolding CheckEthEngineLive_unfold by simp
    with n1 CtxDone show ?thesis by (intro disjI1 exI [of _ n1]) simp
  next
    case Tick
    with c1 have ok1: "dialOk w n1 ip (EthPortHTTP G)"
      and r1': "r1 = (None, Suc n1,
                   [WithTimeout (Second * 5), NewTicker (100 * Millisecond)]
                   @ replicate n1 (Dial ip (EthPortHTTP G) False)
                   @ [Dial ip (EthPortHTTP G) True, ConnClose ip (EthPortHTTP G)])"
      by simp_all
    from res r1 r1' obtain r2 where r2: "portcheckloop w ip (EnginePortHTTP G) (Suc n1)
        ([WithTimeout (Second * 5), NewTicker (100 * Millisecond)]
           @ replicate n1 (Dial ip (EthPortHTTP G) False)
           @ [Dial ip (EthPortHTTP G) True, ConnClose ip (EthPortHTTP G)]) = Some r2"
      unfolding CheckEthEngineLive_unfold by (auto split: option.splits)
    from portcheckloop_Some [OF r2] obtain n2 where
      n2: "\<forall>j<n2. selected w (Suc n1 + j) = Tick \<and> \<not> dialOk w (Suc n1 + j) ip (EnginePortHTTP G)"
      and c2: "selected w (Suc n1 + n2) = Tick \<and> dialOk w (Suc n1 + n2) ip (EnginePortHTTP G)
             \<and> r2 = (None, Suc (Suc n1 + n2),
                     ([WithTimeout (Second * 5), NewTicker (100 * Millisecond)]
                       @ replicate n1 (Dial ip (EthPortHTTP G) False)
                       @ [Dial ip (EthPortHTTP G) True, ConnClose ip (EthPortHTTP G)])
                     @ replicate n2 (Dial ip (EnginePortHTTP G) False)
                     @ [Dial ip (EnginePortHTTP G) True, ConnClose ip (EnginePortHTTP G)])
           \<or> selected w (Suc n1 + n2) = CtxDone
             \<and> r2 = (Some DeadlineExceeded, Suc (Suc n1 + n2),
                     ([WithTimeout (Second * 5), NewTicker (100 * Millisecond)]
                       @ replicate n1 (Dial ip (EthPortHTTP G) False)
                       @ [Dial ip (EthPortHTTP G) True, ConnClose ip (EthPortHTTP G)])
                     @ replicate n2 (Dial ip (EnginePortHTTP G) False))"
      by blast
    from c2 res r1 r1' r2 have done2: "selected w (Suc n1 + n2) = CtxDone"
      and evs: "evs = [WithTimeout (Second * 5), NewTicker (100 * Millisecond)]
                      @ replicate n1 (Dial ip (EthPortHTTP G) False)
                      @ [Dial ip (EthPortHTTP G) True, ConnClose ip (EthPortHTTP G)]
                      @ replicate n2 (Dial ip (EnginePortHTTP G) False)
                      @ [TickerStop, CtxCancel]"
      unfolding CheckEthEngineLive_unfold by auto
    from n1 Tick ok1 n2 done2 evs show ?thesis
      by (intro disjI2 exI [of _ n1] exI [of _ n2]) simp
  qed
next
  assume "\<exists>m. selected w m = CtxDone"
  then obtain m where m: "selected w m = CtxDone" by blast
  from portcheckloop_returns [OF m, of 0] obtain r1 where
    r1: "portcheckloop w ip (EthPortHTTP G) 0
           [WithTimeout (Second * 5), NewTicker (100 * Millisecond)] = Some r1"
    by fastforce
  obtain e1 k1 evs1 where r1': "r1 = (e1, k1, evs1)" by (cases r1) auto
  show "CheckEthEngineLive G w ip \<noteq> None"
  proof (cases e1)
    case (Some err)
    with r1 r1' show ?thesis unfolding CheckEthEngineLive_unfold by simp
  next
    case None
    from portcheckloop_Some [OF r1] r1' None obtain n1 where
      n1: "selected w n1 = Tick" "k1 = Suc n1" and before: "\<forall>j<n1. selected w j = Tick" by auto
    have "Suc n1 \<le> m"
    proof (rule ccontr)
      assume "\<not> Suc n1 \<le> m"
      then have "m < n1 \<or> m = n1" by auto
      with before n1(1) have "selected w m = Tick" by auto
      with m show False by simp
    qed
    from portcheckloop_returns [OF m this] obtain r2 where
      "portcheckloop w ip (EnginePortHTTP G) (Suc n1) evs1 = Some r2"
      by fastforce
    with r1 r1' None n1(2) show ?thesis
      unfolding CheckEthEngineLive_unfold by (auto split: option.splits prod.splits)
  qed
qed

text \<open>
  C5: (1) when \<^verbatim>\<open>CheckEthEngineLive\<close> returns nil, it has created one context with a
  timeout of 5 seconds and one ticker of 100 milliseconds, it has dialled the HTTP port
  until a dial succeeded and closed that connection at once, only then dialled the
  engine port until a dial succeeded and closed that connection at once, every dial
  followed a tick, and no \<^verbatim>\<open>select\<close> found the context done. (2) When it returns an
  error, the error is that of the one context whose deadline passed, found done by a
  \<^verbatim>\<open>select\<close> while a port had not answered yet (the first port, or the second after
  the first had answered). (3) Once the context is done at some \<^verbatim>\<open>select\<close>, the function
  returns: with the deadline error, unless both ports have answered dials made in
  earlier \<^verbatim>\<open>select\<close>s, in which case it has returned nil.
\<close>

theorem CheckEthEngineLive_outcomes:
  "(\<forall>evs. CheckEthEngineLive G w ip = Some (None, evs) \<longrightarrow>
      (\<exists>n1 n2.
         evs = [WithTimeout (Second * 5), NewTicker (100 * Millisecond)]
             @ replicate n1 (Dial ip (EthPortHTTP G) False)
             @ [Dial ip (EthPortHTTP G) True, ConnClose ip (EthPortHTTP G)]
             @ replicate n2 (Dial ip (EnginePortHTTP G) False)
             @ [Dial ip (EnginePortHTTP G) True, ConnClose ip (EnginePortHTTP G)]
             @ [TickerStop, CtxCancel]
         \<and> (\<forall>j<n1. selected w j = Tick \<and> \<not> dialOk w j ip (EthPortHTTP G))
         \<and> selected w n1 = Tick \<and> dialOk w n1 ip (EthPortHTTP G)
         \<and> (\<forall>j<n2. selected w (Suc n1 + j) = Tick \<and> \<not> dialOk w (Suc n1 + j) ip (EnginePortHTTP G))
         \<and> selected w (Suc n1 + n2) = Tick \<and> dialOk w (Suc n1 + n2) ip (EnginePortHTTP G)))
   \<and> (\<forall>err evs. CheckEthEngineLive G w ip = Some (Some err, evs) \<longrightarrow>
        err = DeadlineExceeded
        \<and> ((\<exists>n1. (\<forall>j<n1. selected w j = Tick \<and> \<not> dialOk w j ip (EthPortHTTP G))
                  \<and> selected w n1 = CtxDone
                  \<and> evs = [WithTimeout (Second * 5), NewTicker (100 * Millisecond)]
                      @ replicate n1 (Dial ip (EthPortHTTP G) False)
                      @ [TickerStop, CtxCancel])
           \<or> (\<exists>n1 n2. (\<forall>j<n1. selected w j = Tick \<and> \<not> dialOk w j ip (EthPortHTTP G))
                  \<and> selected w n1 = Tick \<and> dialOk w n1 ip (EthPortHTTP G)
                  \<and> (\<forall>j<n2. selected w (Suc n1 + j) = Tick
                              \<and> \<not> dialOk w (Suc n1 + j) ip (EnginePortHTTP G))
                  \<and> selected w (Suc n1 + n2) = CtxDone
                  \<and> evs = [WithTimeout (Second * 5), NewTicker (100 * Millisecond)]
                      @ replicate n1 (Dial ip (EthPortHTTP G) False)
                      @ [Dial ip (EthPortHTTP G) True, ConnClose ip (EthPortHTTP G)]
                      @ replicate n2 (Dial ip (EnginePortHTTP G) False)
                      @ [TickerStop, CtxCancel])))
   \<and> (\<forall>m. selected w m = CtxDone \<longrightarrow>
        (\<exists>evs. CheckEthEngineLive G w ip = Some (Some DeadlineExceeded, evs))
        \<or> (\<exists>evs n1 n2. CheckEthEngineLive G w ip = Some (None, evs) \<and> Suc (n1 + n2) < m
               \<and> dialOk w n1 ip (EthPortHTTP G)
               \<and> dialOk w (Suc n1 + n2) ip (EnginePortHTTP G)))"
proof -
  note cases = CheckEthEngineLive_cases [of G w ip]
  have timely: "(\<exists>evs. CheckEthEngineLive G w ip = Some (Some DeadlineExceeded, evs))
        \<or> (\<exists>evs n1 n2. CheckEthEngineLive G w ip = Some (None, evs) \<and> Suc (n1 + n2) < m
               \<and> dialOk w n1 ip (EthPortHTTP G)
               \<and> dialOk w (Suc n1 + n2) ip (EnginePortHTTP G))"
    if m: "selected w m = CtxDone" for m
  proof -
    from m cases have "CheckEthEngineLive G w ip \<noteq> None" by blast
    then obtain e evs where res: "CheckEthEngineLive G w ip = Some (e, evs)" by auto
    show ?thesis
    proof (cases e)
      case (Some err)
      then have "err = DeadlineExceeded" by (cases err) simp
      with res Some show ?thesis by blast
    next
      case None
      with res cases obtain n1 n2 where
        t1: "\<forall>j<n1. selected w j = Tick \<and> \<not> dialOk w j ip (EthPortHTTP G)"
        and t2: "selected w n1 = Tick" and ok1: "dialOk w n1 ip (EthPortHTTP G)"
        and t3: "\<forall>j<n2. selected w (Suc n1 + j) = Tick
                    \<and> \<not> dialOk w (Suc n1 + j) ip (EnginePortHTTP G)"
        and t4: "selected w (Suc n1 + n2) = Tick"
        and ok2: "dialOk w (Suc n1 + n2) ip (EnginePortHTTP G)"
        by blast
      have "Suc (n1 + n2) < m"
      proof (rule ccontr)
        assume "\<not> Suc (n1 + n2) < m"
        then have le: "m \<le> Suc n1 + n2" by simp
        have "selected w m = Tick"
        proof (cases "m < n1")
          case True
          with t1 show ?thesis by simp
        next
          case False
          show ?thesis
          proof (cases "m = n1")
            case True
            with t2 show ?thesis by simp
          next
            case False
            with \<open>\<not> m < n1\<close> have ge: "Suc n1 \<le> m" by simp
            show ?thesis
            proof (cases "m = Suc n1 + n2")
              case True
              with t4 show ?thesis by simp
            next
              case False
              with le ge have "m - Suc n1 < n2" and "m = Suc n1 + (m - Suc n1)" by simp_all
              with t3 show ?thesis by metis
            qed
          qed
        qed
        with m show False by simp
      qed
      with res None ok1 ok2 show ?thesis by blast
    qed
  qed
  from cases timely show ?thesis by blast
qed

text \<open>The check on the two sample networks.\<close>

lemma sample_ports_open:
  "CheckEthEngineLive sampleGlobals openingWorld ''10.0.0.2'' =
     Some (None,
       [WithTimeout (Second * 5), NewTicker (100 * Millisecond),
        Dial ''10.0.0.2'' 8545 False, Dial ''10.0.0.2'' 8545 True, ConnClose ''10.0.0.2'' 8545,
        Dial ''10.0.0.2'' 8551 False, Dial ''10.0.0.2'' 8551 True, ConnClose ''10.0.0.2'' 8551,
        TickerStop, CtxCancel])"
proof -
  have "\<forall>j<1. selected openingWorld j = Tick
          \<and> \<not> dialOk openingWorld j ''10.0.0.2'' (EthPortHTTP sampleGlobals)"
    and "selected openingWorld 1 = Tick"
    and "dialOk openingWorld 1 ''10.0.0.2'' (EthPortHTTP sampleGlobals)"
    and "\<forall>j<1. selected openingWorld (Suc 1 + j) = Tick
          \<and> \<not> dialOk openingWorld (Suc 1 + j) ''10.0.0.2'' (EnginePortHTTP sampleGlobals)"
    and "selected openingWorld (Suc 1 + 1) = Tick"
    and "dialOk openingWorld (Suc 1 + 1) ''10.0.0.2'' (EnginePortHTTP sampleGlobals)"
    by (simp_all add: openingWorld_def sampleGlobals_def)
  from CheckEthEngineLive_both_open [OF this] show ?thesis
    by (simp add: sampleGlobals_def)
qed

lemma sample_engine_port_closed:
  "CheckEthEngineLive sampleGlobals closedEngineWorld ''10.0.0.2'' =
     Some (Some DeadlineExceeded,
       [WithTimeout (Second * 5), NewTicker (100 * Millisecond),
        Dial ''10.0.0.2'' 8545 False, Dial ''10.0.0.2'' 8545 True, ConnClose ''10.0.0.2'' 8545,
        Dial ''10.0.0.2'' 8551 False, Dial ''10.0.0.2'' 8551 False,
        TickerStop, CtxCancel])"
proof -
  have "\<forall>j<1. selected closedEngineWorld j = Tick
          \<and> \<not> dialOk closedEngineWorld j ''10.0.0.2'' (EthPortHTTP sampleGlobals)"
    and "selected closedEngineWorld 1 = Tick"
    and "dialOk closedEngineWorld 1 ''10.0.0.2'' (EthPortHTTP sampleGlobals)"
    and "\<forall>j<2. selected closedEngineWorld (Suc 1 + j) = Tick
          \<and> \<not> dialOk closedEngineWorld (Suc 1 + j) ''10.0.0.2'' (EnginePortHTTP sampleGlobals)"
    and "selected closedEngineWorld (Suc 1 + 2) = CtxDone"
    by (simp_all add: closedEngineWorld_def sampleGlobals_def)
  from CheckEthEngineLive_second_times_out [OF this] show ?thesis
    by (simp add: sampleGlobals_def numeral_2_eq_2)
qed

theorem CheckEthEngineLive_outcomes_witness:
  "(\<exists>n1 n2.
      [WithTimeout (Second * 5), NewTicker (100 * Millisecond),
       Dial ''10.0.0.2'' 8545 False, Dial ''10.0.0.2'' 8545 True, ConnClose ''10.0.0.2'' 8545,
       Dial ''10.0.0.2'' 8551 False, Dial ''10.0.0.2'' 8551 True, ConnClose ''10.0.0.2'' 8551,
       TickerStop, CtxCancel]
      = [WithTimeout (Second * 5), NewTicker (100 * Millisecond)]
          @ replicate n1 (Dial ''10.0.0.2'' (EthPortHTTP sampleGlobals) False)
          @ [Dial ''10.0.0.2'' (EthPortHTTP sampleGlobals) True,
             ConnClose ''10.0.0.2'' (EthPortHTTP sampleGlobals)]
          @ replicate n2 (Dial ''10.0.0.2'' (EnginePortHTTP sampleGlobals) False)
          @ [Dial ''10.0.0.2'' (EnginePortHTTP sampleGlobals) True,
             ConnClose ''10.0.0.2'' (EnginePortHTTP sampleGlobals)]
          @ [TickerStop, CtxCancel]
      \<and> dialOk openingWorld n1 ''10.0.0.2'' (EthPortHTTP sampleGlobals)
      \<and> dialOk openingWorld (Suc n1 + n2) ''10.0.0.2'' (EnginePortHTTP sampleGlobals))
   \<and> selected closedEngineWorld 4 = CtxDone
   \<and> (\<exists>evs. CheckEthEngineLive sampleGlobals closedEngineWorld ''10.0.0.2''
              = Some (Some DeadlineExceeded, evs))"
proof -
  have done4: "selected closedEngineWorld 4 = CtxDone" by (simp add: closedEngineWorld_def)
  note late = CheckEthEngineLive_outcomes [of sampleGlobals closedEngineWorld "''10.0.0.2''",
      THEN conjunct2, THEN conjunct2, rule_format, OF done4]
  have "\<not> dialOk closedEngineWorld k ''10.0.0.2'' (EnginePortHTTP sampleGlobals)" for k
    by (simp add: closedEngineWorld_def sampleGlobals_def)
  with late have timed_out: "\<exists>evs. CheckEthEngineLive sampleGlobals closedEngineWorld ''10.0.0.2''
              = Some (Some DeadlineExceeded, evs)"
    by blast
  note opened = CheckEthEngineLive_outcomes [of sampleGlobals openingWorld "''10.0.0.2''",
      THEN conjunct1, rule_format, OF sample_ports_open]
  from opened done4 timed_out show ?thesis by blast
qed

section \<open>Properties of the context accessor\<close>

subsection \<open>The store\<close>

lemma length_cancel [simp]: "length (cancel cs c) = length cs"
  by (simp add: cancel_def)

lemma cancelCalls_cancel:
  "d < length cs \<Longrightarrow>
     cancelCalls (cancel cs c ! d) = (if d = c then Suc (cancelCalls (cs ! d)) else cancelCalls (cs ! d))"
  by (simp add: cancel_def nth_list_update)

lemma paired_newTestEnv: "paired (cs, newTestEnv name ty)"
  by (simp add: paired_def newTestEnv_def)

text \<open>One call on a fitting state: the last context is cancelled, a new one is appended.\<close>

lemma Ctx_paired:
  assumes "paired (cs, t)"
  shows "Ctx G (cs, t) =
           (Return (length cs),
            (case lastCtx t of None \<Rightarrow> [] | Some c \<Rightarrow> [CancelCalled c])
              @ [ContextCreated (length cs)],
            (case lastCtx t of None \<Rightarrow> cs | Some c \<Rightarrow> cancel cs c)
              @ [\<lparr>ctxParent = None, ctxTimeout = rpcTimeout G, cancelCalls = 0\<rparr>],
            t\<lparr>lastCtx := Some (length cs), lastCancel := Some (length cs)\<rparr>)"
  using assms by (cases "lastCtx t") (simp_all add: paired_def Ctx_def WithTimeoutCtx_def)

text \<open>Whatever the state, a call that returns leaves a fitting state with the new context last.\<close>

lemma Ctx_Return:
  assumes "Ctx G (cs, t) = (Return c, evs, cs', t')"
  shows "c = length cs \<and> length cs' = Suc (length cs) \<and> lastCtx t' = Some c
         \<and> cs' ! c = \<lparr>ctxParent = None, ctxTimeout = rpcTimeout G, cancelCalls = 0\<rparr>
         \<and> paired (cs', t')"
proof (cases "lastCtx t")
  case None
  with assms show ?thesis
    by (auto simp: Ctx_def WithTimeoutCtx_def paired_def nth_append)
next
  case (Some l)
  with assms show ?thesis
    by (cases "lastCancel t") (auto simp: Ctx_def WithTimeoutCtx_def paired_def nth_append)
qed

subsection \<open>Runs of calls\<close>

text \<open>
  \<open>n\<close> calls on a fitting state return the \<open>n\<close> next indices of the store. Afterwards
  the contexts that were in the store keep their count, but for the one that was last,
  which is cancelled once more when \<open>n > 0\<close>; of the new contexts every one but the
  newest has been cancelled exactly once, and the newest not at all.
\<close>

lemma CtxCalls_paired:
  assumes "paired (cs, t)" and "CtxCalls G n (cs, t) = (cids, cs', t')"
  shows "paired (cs', t') \<and> cids = [length cs..<length cs + n] \<and> length cs' = length cs + n
         \<and> (0 < n \<longrightarrow> lastCtx t' = Some (length cs + n - 1))
         \<and> (n = 0 \<longrightarrow> t' = t \<and> cs' = cs)
         \<and> (\<forall>c<length cs'. cancelCalls (cs' ! c) =
               (if c < length cs
                then (if 0 < n \<and> lastCtx t = Some c then Suc (cancelCalls (cs ! c))
                      else cancelCalls (cs ! c))
                else if Suc c = length cs' then 0 else 1))"
  using assms
proof (induction n arbitrary: cs t cids cs' t')
  case 0
  then show ?case by simp
next
  case (Suc n)
  define cs1 where "cs1 = (case lastCtx t of None \<Rightarrow> cs | Some c \<Rightarrow> cancel cs c)
              @ [\<lparr>ctxParent = None, ctxTimeout = rpcTimeout G, cancelCalls = 0\<rparr>]"
  define t1 where "t1 = t\<lparr>lastCtx := Some (length cs), lastCancel := Some (length cs)\<rparr>"
  define ev1 where "ev1 = (case lastCtx t of None \<Rightarrow> [] | Some c \<Rightarrow> [CancelCalled c])
              @ [ContextCreated (length cs)]"
  have step: "Ctx G (cs, t) = (Return (length cs), ev1, cs1, t1)"
    unfolding ev1_def cs1_def t1_def by (rule Ctx_paired [OF Suc.prems(1)])
  have len1: "length cs1 = Suc (length cs)"
    by (simp add: cs1_def split: option.splits)
  have p1: "paired (cs1, t1)"
    using Ctx_Return [OF step] by simp
  have last1: "lastCtx t1 = Some (length cs)" by (simp add: t1_def)
  obtain cids1 where rest: "CtxCalls G n (cs1, t1) = (cids1, cs', t')" and cids: "cids = length cs # cids1"
    using Suc.prems(2) step by (auto split: prod.splits)
  note IH = Suc.IH [OF p1 rest]
  have old: "cancelCalls (cs1 ! c) = (if lastCtx t = Some c then Suc (cancelCalls (cs ! c))
                                      else cancelCalls (cs ! c))" if "c < length cs" for c
    using that by (cases "lastCtx t") (simp_all add: cs1_def nth_append cancelCalls_cancel)
  have new: "cancelCalls (cs1 ! length cs) = 0"
    by (simp add: cs1_def nth_append split: option.splits)
  have "paired (cs', t')" using IH by simp
  moreover have "cids = [length cs..<length cs + Suc n]"
    using IH cids len1 by (simp add: upt_conv_Cons)
  moreover have len': "length cs' = length cs + Suc n" using IH len1 by simp
  moreover have "lastCtx t' = Some (length cs + Suc n - 1)"
  proof (cases n)
    case 0
    with IH last1 show ?thesis by simp
  next
    case (Suc k)
    with IH len1 show ?thesis by simp
  qed
  moreover have "\<forall>c<length cs'. cancelCalls (cs' ! c) =
               (if c < length cs
                then (if 0 < Suc n \<and> lastCtx t = Some c then Suc (cancelCalls (cs ! c))
                      else cancelCalls (cs ! c))
                else if Suc c = length cs' then 0 else 1)"
  proof (intro allI impI)
    fix c assume c: "c < length cs'"
    from IH c have eq: "cancelCalls (cs' ! c) =
               (if c < length cs1
                then (if 0 < n \<and> lastCtx t1 = Some c then Suc (cancelCalls (cs1 ! c))
                      else cancelCalls (cs1 ! c))
                else if Suc c = length cs' then 0 else 1)" by simp
    show "cancelCalls (cs' ! c) =
               (if c < length cs
                then (if 0 < Suc n \<and> lastCtx t = Some c then Suc (cancelCalls (cs ! c))
                      else cancelCalls (cs ! c))
                else if Suc c = length cs' then 0 else 1)"
    proof (cases "c < length cs")
      case True
      with eq len1 last1 old [OF True] show ?thesis by simp
    next
      case False
      show ?thesis
      proof (cases "c = length cs")
        case True
        with eq len1 last1 new len' show ?thesis by (cases n) simp_all
      next
        case False
        with \<open>\<not> c < length cs\<close> eq len1 show ?thesis by simp
      qed
    qed
  qed
  ultimately show ?case by simp
qed

lemma cancelLastCtx_paired:
  assumes "paired (cs, t)"
  shows "cancelLastCtx (cs, t)
           = (Return (), (case lastCtx t of None \<Rightarrow> cs | Some c \<Rightarrow> cancel cs c), t)"
  using assms by (cases "lastCtx t") (simp_all add: paired_def cancelLastCtx_def)

subsection \<open>Calls that return\<close>

text \<open>What two calls that return, one after the other, have done.\<close>

lemma two_Ctx_calls_returned:
  assumes first: "Ctx G (cs, t) = (Return c1, ev1, cs1, t1)"
    and second: "Ctx G (cs1, t1) = (Return c2, ev2, cs2, t2)"
  shows "ev2 = [CancelCalled c1, ContextCreated c2]
       \<and> c1 \<noteq> c2
       \<and> live cs1 c1 \<and> cancelCalls (cs1 ! c1) = 0
       \<and> cs2 = cancel cs1 c1 @ [\<lparr>ctxParent = None, ctxTimeout = rpcTimeout G, cancelCalls = 0\<rparr>]
       \<and> cancelCalls (cs2 ! c1) = 1 \<and> \<not> live cs2 c1
       \<and> live cs2 c2 \<and> ctxParent (cs2 ! c2) = None \<and> lastCtx t2 = Some c2
       \<and> (\<forall>n cids cs' t'. CtxCalls G n (cs2, t2) = (cids, cs', t') \<longrightarrow>
             length cids = n
             \<and> cancelCalls (cs' ! c1) = 1
             \<and> fst (cancelLastCtx (cs', t')) = Return ()
             \<and> cancelCalls (fst (snd (cancelLastCtx (cs', t'))) ! c1) = 1
             \<and> (\<forall>c\<in>set (c1 # c2 # cids). live cs' c \<longrightarrow> lastCtx t' = Some c))"
proof -
  from Ctx_Return [OF first] have c1: "c1 = length cs" and len1: "length cs1 = Suc (length cs)"
    and last1: "lastCtx t1 = Some c1"
    and new1: "cs1 ! c1 = \<lparr>ctxParent = None, ctxTimeout = rpcTimeout G, cancelCalls = 0\<rparr>"
    and p1: "paired (cs1, t1)" by blast+
  from Ctx_Return [OF second] have c2: "c2 = length cs1" and len2: "length cs2 = Suc (length cs1)"
    and last2: "lastCtx t2 = Some c2"
    and new2: "cs2 ! c2 = \<lparr>ctxParent = None, ctxTimeout = rpcTimeout G, cancelCalls = 0\<rparr>"
    and p2: "paired (cs2, t2)" by blast+
  from Ctx_paired [OF p1, of G] second last1
  have cs2: "cs2 = cancel cs1 c1 @ [\<lparr>ctxParent = None, ctxTimeout = rpcTimeout G, cancelCalls = 0\<rparr>]"
    and ev2: "ev2 = [CancelCalled c1, ContextCreated c2]"
    by simp_all
  have neq: "c1 \<noteq> c2" using c1 c2 len1 by simp
  have live1: "live cs1 c1" and zero1: "cancelCalls (cs1 ! c1) = 0"
    using c1 len1 new1 by (simp_all add: live_def)
  have one: "cancelCalls (cs2 ! c1) = 1"
    using c1 len1 zero1 by (simp add: cs2 nth_append cancelCalls_cancel)
  then have dead1: "\<not> live cs2 c1" by (simp add: live_def)
  have live2: "live cs2 c2" and parent2: "ctxParent (cs2 ! c2) = None"
    using c2 len2 new2 by (simp_all add: live_def)
  have later: "length cids = n
             \<and> cancelCalls (cs' ! c1) = 1
             \<and> fst (cancelLastCtx (cs', t')) = Return ()
             \<and> cancelCalls (fst (snd (cancelLastCtx (cs', t'))) ! c1) = 1
             \<and> (\<forall>c\<in>set (c1 # c2 # cids). live cs' c \<longrightarrow> lastCtx t' = Some c)"
    if run: "CtxCalls G n (cs2, t2) = (cids, cs', t')" for n cids cs' t'
  proof -
    from CtxCalls_paired [OF p2 run]
    have p': "paired (cs', t')" and cids: "cids = [length cs2..<length cs2 + n]"
      and len': "length cs' = length cs2 + n"
      and last': "0 < n \<longrightarrow> lastCtx t' = Some (length cs2 + n - 1)"
      and counts: "\<forall>c<length cs'. cancelCalls (cs' ! c) =
               (if c < length cs2
                then (if 0 < n \<and> lastCtx t2 = Some c then Suc (cancelCalls (cs2 ! c))
                      else cancelCalls (cs2 ! c))
                else if Suc c = length cs' then 0 else 1)"
      by blast+
    from CtxCalls_paired [OF p2 run] have same2: "n = 0 \<longrightarrow> t' = t2 \<and> cs' = cs2" by simp
    have lastnew: "lastCtx t' = Some (length cs' - 1)"
    proof (cases n)
      case 0
      with same2 last2 c2 len2 show ?thesis by simp
    next
      case (Suc k)
      with last' len' show ?thesis by simp
    qed
    have c1lt: "c1 < length cs2" "c1 < length cs'" using c1 len1 len2 len' by simp_all
    have k1: "cancelCalls (cs' ! c1) = 1"
      using counts c1lt last2 neq one by simp
    have k2: "fst (cancelLastCtx (cs', t')) = Return ()
              \<and> cancelCalls (fst (snd (cancelLastCtx (cs', t'))) ! c1) = 1"
    proof -
      have "length cs' - 1 \<noteq> c1" using c1 len1 len2 len' by simp
      with lastnew k1 c1lt(2) show ?thesis
        by (simp add: cancelLastCtx_paired [OF p'] cancelCalls_cancel)
    qed
    have k3: "live cs' c \<longrightarrow> lastCtx t' = Some c" if "c \<in> set (c1 # c2 # cids)" for c
    proof
      assume l: "live cs' c"
      then have clt: "c < length cs'" and zero: "cancelCalls (cs' ! c) = 0"
        by (simp_all add: live_def)
      from that cids c1 c2 len1 len2 have ge: "length cs \<le> c" by auto
      have "c \<noteq> c1" using zero k1 by auto
      show "lastCtx t' = Some c"
      proof (cases "c < length cs2")
        case True
        with \<open>c \<noteq> c1\<close> ge c1 c2 len1 len2 have "c = c2" by simp
        with counts clt True zero last2 new2 have "n = 0" by (cases n) simp_all
        with same2 last2 \<open>c = c2\<close> show ?thesis by simp
      next
        case False
        with counts clt zero have "Suc c = length cs'" by (simp split: if_splits)
        with lastnew show ?thesis by simp
      qed
    qed
    from cids k1 k2 k3 show ?thesis by simp
  qed
  from ev2 neq live1 zero1 cs2 one dead1 live2 parent2 last2 later show ?thesis by blast
qed

subsection \<open>Two calls in succession\<close>

text \<open>
  C6: on an environment whose \<^verbatim>\<open>lastCtx\<close> and \<^verbatim>\<open>lastCancel\<close> fit together (as in a
  fresh environment and after every call of \<^verbatim>\<open>Ctx\<close>), two calls of \<^verbatim>\<open>Ctx\<close> in
  succession both return, and they return distinct contexts. The first context is live
  after the first call. The second call does two things in this order: it calls the
  cancel function of the first context, once, and then it creates the second context,
  which is a child of the background context, not of the first, and is live. Any number
  of further calls of \<^verbatim>\<open>Ctx\<close> return as well, and they and the deferred cancellation
  at the end of \<^verbatim>\<open>RunTest\<close> leave the count of the first context at one. After any
  number of further calls, a context returned by any of these calls is live only if it
  is the one the environment holds as \<^verbatim>\<open>lastCtx\<close>: at most one of them is live.
\<close>

theorem Ctx_twice:
  assumes "paired (cs, t)"
  shows "\<exists>c1 ev1 cs1 t1 c2 cs2 t2.
           Ctx G (cs, t) = (Return c1, ev1, cs1, t1)
         \<and> Ctx G (cs1, t1) = (Return c2, [CancelCalled c1, ContextCreated c2], cs2, t2)
         \<and> c1 \<noteq> c2
         \<and> live cs1 c1 \<and> cancelCalls (cs1 ! c1) = 0
         \<and> cs2 = cancel cs1 c1 @ [\<lparr>ctxParent = None, ctxTimeout = rpcTimeout G, cancelCalls = 0\<rparr>]
         \<and> cancelCalls (cs2 ! c1) = 1 \<and> \<not> live cs2 c1
         \<and> live cs2 c2 \<and> ctxParent (cs2 ! c2) = None \<and> lastCtx t2 = Some c2
         \<and> (\<forall>n. \<exists>cids cs' t'. CtxCalls G n (cs2, t2) = (cids, cs', t')
               \<and> length cids = n
               \<and> cancelCalls (cs' ! c1) = 1
               \<and> fst (cancelLastCtx (cs', t')) = Return ()
               \<and> cancelCalls (fst (snd (cancelLastCtx (cs', t'))) ! c1) = 1
               \<and> (\<forall>c\<in>set (c1 # c2 # cids). live cs' c \<longrightarrow> lastCtx t' = Some c))"
proof -
  obtain c1 ev1 cs1 t1 where first: "Ctx G (cs, t) = (Return c1, ev1, cs1, t1)"
    using Ctx_paired [OF assms, of G] by blast
  from Ctx_Return [OF first] have p1: "paired (cs1, t1)" by blast
  obtain c2 ev2 cs2 t2 where second: "Ctx G (cs1, t1) = (Return c2, ev2, cs2, t2)"
    using Ctx_paired [OF p1, of G] by blast
  note both = two_Ctx_calls_returned [OF first second]
  from both have ev2: "ev2 = [CancelCalled c1, ContextCreated c2]" by blast
  have later: "\<exists>cids cs' t'. CtxCalls G n (cs2, t2) = (cids, cs', t')
               \<and> length cids = n
               \<and> cancelCalls (cs' ! c1) = 1
               \<and> fst (cancelLastCtx (cs', t')) = Return ()
               \<and> cancelCalls (fst (snd (cancelLastCtx (cs', t'))) ! c1) = 1
               \<and> (\<forall>c\<in>set (c1 # c2 # cids). live cs' c \<longrightarrow> lastCtx t' = Some c)" for n
  proof -
    obtain cids cs' t' where run: "CtxCalls G n (cs2, t2) = (cids, cs', t')"
      by (cases "CtxCalls G n (cs2, t2)") auto
    from both [THEN conjunct2, THEN conjunct2, THEN conjunct2, THEN conjunct2, THEN conjunct2,
        THEN conjunct2, THEN conjunct2, THEN conjunct2, THEN conjunct2, THEN conjunct2,
        rule_format, OF run] run
    show ?thesis by blast
  qed
  from first second [unfolded ev2] both later show ?thesis by blast
qed

text \<open>Three calls on a fresh environment with an empty store.\<close>

lemma sample_Ctx_first:
  "Ctx sampleGlobals ([], newTestEnv ''sample'' UnspecifiedTransactionType)
     = (Return 0, [ContextCreated 0], [sampleCtx 0], sampleEnvHolding 0)"
  by (simp add: Ctx_def WithTimeoutCtx_def newTestEnv_def sampleCtx_def sampleEnvHolding_def
      sampleGlobals_def)

lemma sample_Ctx_second:
  "Ctx sampleGlobals ([sampleCtx 0], sampleEnvHolding 0)
     = (Return 1, [CancelCalled 0, ContextCreated 1], [sampleCtx 1, sampleCtx 0], sampleEnvHolding 1)"
  by (simp add: Ctx_def WithTimeoutCtx_def cancel_def newTestEnv_def sampleCtx_def
      sampleEnvHolding_def sampleGlobals_def)

lemma sample_Ctx_third:
  "CtxCalls sampleGlobals 1 ([sampleCtx 1, sampleCtx 0], sampleEnvHolding 1)
     = ([2], [sampleCtx 1, sampleCtx 1, sampleCtx 0], sampleEnvHolding 2)"
  by (simp add: Ctx_def WithTimeoutCtx_def cancel_def newTestEnv_def sampleCtx_def
      sampleEnvHolding_def sampleGlobals_def)

theorem Ctx_twice_witness:
  "paired ([], newTestEnv ''sample'' UnspecifiedTransactionType)
   \<and> Ctx sampleGlobals ([], newTestEnv ''sample'' UnspecifiedTransactionType)
       = (Return 0, [ContextCreated 0], [sampleCtx 0], sampleEnvHolding 0)
   \<and> Ctx sampleGlobals ([sampleCtx 0], sampleEnvHolding 0)
       = (Return 1, [CancelCalled 0, ContextCreated 1], [sampleCtx 1, sampleCtx 0], sampleEnvHolding 1)
   \<and> (0 :: nat) \<noteq> 1
   \<and> live [sampleCtx 0] 0
   \<and> cancelCalls ([sampleCtx 1, sampleCtx 0] ! 0) = 1
   \<and> \<not> live [sampleCtx 1, sampleCtx 0] 0
   \<and> live [sampleCtx 1, sampleCtx 0] 1
   \<and> cancelCalls ([sampleCtx 1, sampleCtx 1, sampleCtx 0] ! 0) = 1
   \<and> cancelCalls (fst (snd (cancelLastCtx ([sampleCtx 1, sampleCtx 1, sampleCtx 0], sampleEnvHolding 2))) ! 0) = 1
   \<and> live [sampleCtx 1, sampleCtx 1, sampleCtx 0] 2
   \<and> lastCtx (sampleEnvHolding 2) = Some 2"
proof -
  have p: "paired ([], newTestEnv ''sample'' UnspecifiedTransactionType)"
    by (rule paired_newTestEnv)
  from Ctx_twice [OF p, of sampleGlobals] obtain c1 ev1 cs1 t1 c2 cs2 t2 where
    first: "Ctx sampleGlobals ([], newTestEnv ''sample'' UnspecifiedTransactionType)
              = (Return c1, ev1, cs1, t1)"
    and second: "Ctx sampleGlobals (cs1, t1) = (Return c2, [CancelCalled c1, ContextCreated c2], cs2, t2)"
    and f1: "c1 \<noteq> c2" and f2: "live cs1 c1"
    and f3: "cancelCalls (cs2 ! c1) = 1" and f4: "\<not> live cs2 c1" and f5: "live cs2 c2"
    and later: "\<forall>n. \<exists>cids cs' t'. CtxCalls sampleGlobals n (cs2, t2) = (cids, cs', t')
               \<and> length cids = n
               \<and> cancelCalls (cs' ! c1) = 1
               \<and> fst (cancelLastCtx (cs', t')) = Return ()
               \<and> cancelCalls (fst (snd (cancelLastCtx (cs', t'))) ! c1) = 1
               \<and> (\<forall>c\<in>set (c1 # c2 # cids). live cs' c \<longrightarrow> lastCtx t' = Some c)"
    by blast
  from first sample_Ctx_first have v1: "c1 = 0" "cs1 = [sampleCtx 0]" "t1 = sampleEnvHolding 0"
    by simp_all
  from second have "(Return (1 :: nat), [CancelCalled 0, ContextCreated 1],
        [sampleCtx 1, sampleCtx 0], sampleEnvHolding 1)
      = (Return c2, [CancelCalled c1, ContextCreated c2], cs2, t2)"
    unfolding v1 sample_Ctx_second .
  then have v2: "c2 = 1" "cs2 = [sampleCtx 1, sampleCtx 0]" "t2 = sampleEnvHolding 1"
    by auto
  from later [rule_format, of 1] sample_Ctx_third v1 v2
  have g1: "cancelCalls ([sampleCtx 1, sampleCtx 1, sampleCtx 0] ! 0) = 1"
    and g2: "cancelCalls (fst (snd (cancelLastCtx
               ([sampleCtx 1, sampleCtx 1, sampleCtx 0], sampleEnvHolding 2))) ! 0) = 1"
    and g3: "\<forall>c\<in>set (0 # 1 # [2]). live [sampleCtx 1, sampleCtx 1, sampleCtx 0] c
               \<longrightarrow> lastCtx (sampleEnvHolding 2) = Some c"
    by auto
  have l: "live [sampleCtx 1, sampleCtx 1, sampleCtx 0] 2"
    by (simp add: live_def sampleCtx_def)
  with g3 have g4: "lastCtx (sampleEnvHolding 2) = Some 2" by simp
  from f1 f2 f3 f4 f5 v1 v2 have h: "(0 :: nat) \<noteq> 1" "live [sampleCtx 0] 0"
    "cancelCalls ([sampleCtx 1, sampleCtx 0] ! 0) = 1"
    "\<not> live [sampleCtx 1, sampleCtx 0] 0" "live [sampleCtx 1, sampleCtx 0] 1"
    by simp_all
  from p sample_Ctx_first sample_Ctx_second h g1 g2 l g4 show ?thesis by (intro conjI)
qed

section \<open>Properties of RunTest\<close>

subsection \<open>The deferred functions\<close>

text \<open>Only the function deferred last produces a block.\<close>

lemma runDeferred_other:
  assumes "d \<noteq> DProduceLastBlock"
  shows "\<exists>more. snd (runDeferred produce d (s, evs)) = evs @ more \<and> ProduceSingleBlock \<notin> set more"
  using assms by (cases d) (auto split: option.splits prod.splits outcome.splits)

lemma runAllDeferred_others:
  assumes "DProduceLastBlock \<notin> set stack"
  shows "\<exists>more. snd (runAllDeferred produce stack (s, evs)) = evs @ more
           \<and> ProduceSingleBlock \<notin> set more"
  using assms
proof (induction stack arbitrary: s evs)
  case Nil
  then show ?case by (simp add: runAllDeferred_def)
next
  case (Cons d stack)
  obtain s1 evs1 where step: "runDeferred produce d (s, evs) = (s1, evs1)"
    by (cases "runDeferred produce d (s, evs)") auto
  from Cons.prems have "d \<noteq> DProduceLastBlock" by auto
  from runDeferred_other [OF this, of produce s evs] step obtain m1 where
    m1: "evs1 = evs @ m1" "ProduceSingleBlock \<notin> set m1" by auto
  from Cons.prems have "DProduceLastBlock \<notin> set stack" by simp
  from Cons.IH [OF this, of s1 evs1] obtain m2 where
    m2: "snd (runAllDeferred produce stack (s1, evs1)) = evs1 @ m2" "ProduceSingleBlock \<notin> set m2"
    by blast
  have "snd (runAllDeferred produce (d # stack) (s, evs)) = evs @ (m1 @ m2)"
    using step m1(1) m2(1) by (simp add: runAllDeferred_def)
  moreover have "ProduceSingleBlock \<notin> set (m1 @ m2)" using m1(2) m2(2) by simp
  ultimately show ?case by blast
qed

subsection \<open>The last block\<close>

text \<open>
  C8: when the ports are open, \<^verbatim>\<open>RunTest\<close> runs the test body and then, before any
  other cleanup, produces exactly one block if the body left \<^verbatim>\<open>TTDReached\<close> set and the
  test not failed, and no block otherwise; the events before the body contain no block
  production by \<^verbatim>\<open>RunTest\<close>. When the ports never open, the test is failed, the body
  does not run and no block is produced.
\<close>

theorem RunTest_last_block:
  "(\<forall>levs out s2.
       CheckEthEngineLive G lw ip = Some (None, levs) \<longrightarrow>
       fn (armedState testName timeout ty) = (out, s2) \<longrightarrow>
       (\<exists>s evs rest. RunTest G lw fn produce testName timeout ip ty = Some (s, evs)
          \<and> evs = [NewCLMocker, AddEngineClient, NewEngineClient, DialHTTPWithClient,
                    CheckLive levs, ArmTimeouts timeout, TestBody]
                   @ (if TTDReached s2 \<and> \<not> failed (tsEnv s2) then [ProduceSingleBlock] else [])
                   @ rest
          \<and> ProduceSingleBlock \<notin> set rest
          \<and> count_list evs ProduceSingleBlock
              = (if TTDReached s2 \<and> \<not> failed (tsEnv s2) then 1 else 0)))
   \<and> (\<forall>err levs.
       CheckEthEngineLive G lw ip = Some (Some err, levs) \<longrightarrow>
       (\<exists>s evs. RunTest G lw fn produce testName timeout ip ty = Some (s, evs)
          \<and> failed (tsEnv s) \<and> TestBody \<notin> set evs \<and> ProduceSingleBlock \<notin> set evs))"
proof (intro conjI allI impI)
  fix levs out s2
  assume live: "CheckEthEngineLive G lw ip = Some (None, levs)"
    and body: "fn (armedState testName timeout ty) = (out, s2)"
  define evs1 where "evs1 = [NewCLMocker, AddEngineClient, NewEngineClient, DialHTTPWithClient,
                        CheckLive levs, ArmTimeouts timeout, TestBody]"
  define stack0 where "stack0 = [DSyncCancel, DCloseTestend, DCancelLastCtx, DRpcClientClose,
                    DEngineClientClose, DCloseClients]"
  have no: "DProduceLastBlock \<notin> set stack0" by (simp add: stack0_def)
  have run: "RunTest G lw fn produce testName timeout ip ty
               = Some (runAllDeferred produce (DProduceLastBlock # stack0) (s2, evs1))"
    using live body by (simp add: RunTest_def evs1_def stack0_def)
  define cond where "cond = (TTDReached s2 \<and> \<not> failed (tsEnv s2))"
  define s3 where "s3 = (if cond then produce s2 else s2)"
  define evs3 where "evs3 = evs1 @ (if cond then [ProduceSingleBlock] else [])"
  have first: "runAllDeferred produce (DProduceLastBlock # stack0) (s2, evs1)
                 = runAllDeferred produce stack0 (s3, evs3)"
    by (simp add: runAllDeferred_def s3_def evs3_def cond_def)
  from runAllDeferred_others [OF no, of produce s3 evs3] obtain rest where
    rest: "snd (runAllDeferred produce stack0 (s3, evs3)) = evs3 @ rest"
      "ProduceSingleBlock \<notin> set rest" by blast
  define sF where "sF = fst (runAllDeferred produce stack0 (s3, evs3))"
  have res: "RunTest G lw fn produce testName timeout ip ty = Some (sF, evs3 @ rest)"
    unfolding run first sF_def using rest(1) by (metis prod.collapse)
  have cnt: "count_list (evs3 @ rest) ProduceSingleBlock = (if cond then 1 else 0)"
    using rest(2) by (simp add: evs3_def evs1_def count_list_0_iff)
  have shape: "evs3 @ rest = evs1 @ (if cond then [ProduceSingleBlock] else []) @ rest"
    by (simp add: evs3_def)
  from res shape rest(2) cnt
  show "\<exists>s evs rest. RunTest G lw fn produce testName timeout ip ty = Some (s, evs)
          \<and> evs = [NewCLMocker, AddEngineClient, NewEngineClient, DialHTTPWithClient,
                    CheckLive levs, ArmTimeouts timeout, TestBody]
                   @ (if TTDReached s2 \<and> \<not> failed (tsEnv s2) then [ProduceSingleBlock] else [])
                   @ rest
          \<and> ProduceSingleBlock \<notin> set rest
          \<and> count_list evs ProduceSingleBlock
              = (if TTDReached s2 \<and> \<not> failed (tsEnv s2) then 1 else 0)"
    unfolding evs1_def cond_def by blast
next
  fix err levs
  assume dead: "CheckEthEngineLive G lw ip = Some (Some err, levs)"
  then show "\<exists>s evs. RunTest G lw fn produce testName timeout ip ty = Some (s, evs)
          \<and> failed (tsEnv s) \<and> TestBody \<notin> set evs \<and> ProduceSingleBlock \<notin> set evs"
    by (simp add: RunTest_def runAllDeferred_def Fatalf_def newTestEnv_def)
qed

text \<open>The three sample bodies behind open ports.\<close>

theorem RunTest_last_block_witness:
  "(\<exists>s evs. RunTest sampleGlobals openingWorld passingBody id ''sample'' (60 * Second) ''10.0.0.2''
              UnspecifiedTransactionType = Some (s, evs)
        \<and> count_list evs ProduceSingleBlock = 1)
   \<and> (\<exists>s evs. RunTest sampleGlobals openingWorld failingBody id ''sample'' (60 * Second) ''10.0.0.2''
              UnspecifiedTransactionType = Some (s, evs)
        \<and> count_list evs ProduceSingleBlock = 0)
   \<and> (\<exists>s evs. RunTest sampleGlobals openingWorld powBody id ''sample'' (60 * Second) ''10.0.0.2''
              UnspecifiedTransactionType = Some (s, evs)
        \<and> count_list evs ProduceSingleBlock = 0)
   \<and> (\<exists>s evs. RunTest sampleGlobals closedEngineWorld passingBody id ''sample'' (60 * Second) ''10.0.0.2''
              UnspecifiedTransactionType = Some (s, evs)
        \<and> ProduceSingleBlock \<notin> set evs)"
proof -
  note open_case = RunTest_last_block [where G = sampleGlobals and lw = openingWorld
      and ip = "''10.0.0.2''" and testName = "''sample''" and timeout = "60 * Second"
      and ty = UnspecifiedTransactionType and produce = id,
      THEN conjunct1, rule_format, OF sample_ports_open]
  note closed_case = RunTest_last_block [where G = sampleGlobals and lw = closedEngineWorld
      and ip = "''10.0.0.2''" and testName = "''sample''" and timeout = "60 * Second"
      and ty = UnspecifiedTransactionType and produce = id and fn = passingBody,
      THEN conjunct2, rule_format, OF sample_engine_port_closed]
  have a: "passingBody (armedState ''sample'' (60 * Second) UnspecifiedTransactionType)
      = (Return (), (armedState ''sample'' (60 * Second) UnspecifiedTransactionType)\<lparr>TTDReached := True\<rparr>)"
    by (simp add: passingBody_def)
  have b: "failingBody (armedState ''sample'' (60 * Second) UnspecifiedTransactionType)
      = (FailNow, (armedState ''sample'' (60 * Second) UnspecifiedTransactionType)
           \<lparr>TTDReached := True,
            tsEnv := Fatalf (tsEnv (armedState ''sample'' (60 * Second) UnspecifiedTransactionType))
                       (SendTimeout ''sample'' ''connection refused'')\<rparr>)"
    by (simp add: failingBody_def)
  have c: "powBody (armedState ''sample'' (60 * Second) UnspecifiedTransactionType)
      = (Return (), armedState ''sample'' (60 * Second) UnspecifiedTransactionType)"
    by (simp add: powBody_def)
  from open_case [where fn = passingBody, OF a] have one: "\<exists>s evs. RunTest sampleGlobals openingWorld passingBody id ''sample''
        (60 * Second) ''10.0.0.2'' UnspecifiedTransactionType = Some (s, evs)
        \<and> count_list evs ProduceSingleBlock = 1"
    by (auto simp: armedState_def newTestEnv_def)
  from open_case [where fn = failingBody, OF b] have two: "\<exists>s evs. RunTest sampleGlobals openingWorld failingBody id ''sample''
        (60 * Second) ''10.0.0.2'' UnspecifiedTransactionType = Some (s, evs)
        \<and> count_list evs ProduceSingleBlock = 0"
    by (auto simp: armedState_def newTestEnv_def Fatalf_def)
  from open_case [where fn = powBody, OF c] have three: "\<exists>s evs. RunTest sampleGlobals openingWorld powBody id ''sample''
        (60 * Second) ''10.0.0.2'' UnspecifiedTransactionType = Some (s, evs)
        \<and> count_list evs ProduceSingleBlock = 0"
    by (auto simp: armedState_def newTestEnv_def)
  from closed_case have four: "\<exists>s evs. RunTest sampleGlobals closedEngineWorld passingBody id ''sample''
        (60 * Second) ''10.0.0.2'' UnspecifiedTransactionType = Some (s, evs)
        \<and> ProduceSingleBlock \<notin> set evs"
    by blast
  from one two three four show ?thesis by (intro conjI)
qed

end
